theory Spec2Isabelle
  imports Complex_Main "HOL-Library.AList"
begin

section \<open>JavaScript values used by the validator\<close>

text \<open>
  A TypeScript \<open>Record<string, T>\<close> is a plain JavaScript object. It is modelled by the
  list of its own enumerable properties, in the order \<open>Object.entries\<close> lists them:
  the array indices first, in ascending order, then the other names in the order they
  were set. Each key occurs once (\<open>distinct (map fst obj)\<close>). Strings are lists of
  characters; \<open>!value\<close> on a string is \<open>value = []\<close>.
\<close>

type_synonym 'v Record = "(string \<times> 'v) list"

text \<open>
  A plain object inherits from \<open>Object.prototype\<close>. Reading \<open>obj[k]\<close> gives the own
  property when there is one, else the inherited member when \<open>k\<close> names one (a
  function, or the prototype itself for \<open>__proto__\<close>: truthy, and without any of the
  fields of a schema key), else \<open>undefined\<close>. \<open>k in obj\<close> is true for the own and the
  inherited names.
\<close>

definition Object_prototype_names :: "string list" where
  "Object_prototype_names =
     [''constructor'', ''__defineGetter__'', ''__defineSetter__'', ''hasOwnProperty'',
      ''__lookupGetter__'', ''__lookupSetter__'', ''isPrototypeOf'', ''propertyIsEnumerable'',
      ''toString'', ''valueOf'', ''__proto__'', ''toLocaleString'']"

datatype 'v property = Own 'v | Inherited | Undefined

definition get_property :: "'v Record \<Rightarrow> string \<Rightarrow> 'v property" where
  "get_property obj k =
     (case map_of obj k of
        Some v \<Rightarrow> Own v
      | None \<Rightarrow> if k \<in> set Object_prototype_names then Inherited else Undefined)"

definition has_property :: "'v Record \<Rightarrow> string \<Rightarrow> bool" where
  "has_property obj k = (k \<in> fst ` set obj \<or> k \<in> set Object_prototype_names)"

text \<open>
  An array index is a canonical numeral below \<open>2^32 - 1\<close>: decimal digits without a
  leading zero.
\<close>

definition digit :: "char \<Rightarrow> bool" where
  "digit c = (let n = (of_char c :: nat) in 48 \<le> n \<and> n \<le> 57)"

definition digits_value :: "string \<Rightarrow> nat" where
  "digits_value s = foldl (\<lambda>a c. 10 * a + (of_char c - 48)) 0 s"

definition array_index :: "string \<Rightarrow> nat option" where
  "array_index s =
     (if s \<noteq> [] \<and> list_all digit s \<and> (s = ''0'' \<or> take 1 s \<noteq> ''0'')
         \<and> digits_value s < 4294967295
      then Some (digits_value s) else None)"

text \<open>
  \<open>obj[k] = v\<close>: an existing key keeps its place; a new array index goes among the
  indices, in ascending order; any other new key goes last.
\<close>

fun insert_index :: "nat \<Rightarrow> string \<times> 'v \<Rightarrow> 'v Record \<Rightarrow> 'v Record" where
  "insert_index i kv [] = [kv]"
| "insert_index i kv (e # es) =
     (case array_index (fst e) of
        Some j \<Rightarrow> if j < i then e # insert_index i kv es else kv # e # es
      | None \<Rightarrow> kv # e # es)"

definition set_property :: "'v Record \<Rightarrow> string \<Rightarrow> 'v \<Rightarrow> 'v Record" where
  "set_property obj k v =
     (if k \<in> fst ` set obj then AList.update k v obj
      else case array_index k of
             Some i \<Rightarrow> insert_index i (k, v) obj
           | None \<Rightarrow> obj @ [(k, v)])"

text \<open>
  A JavaScript \<open>number\<close>: the three non-finite values and the finite ones, which are
  rationals. Parsing a string (\<open>Number(value)\<close>) and printing a number in a template
  literal belong to the platform and are parameters of the model.
\<close>

datatype jsnum = NaN | PosInf | NegInf | Fin rat

fun isNaN :: "jsnum \<Rightarrow> bool" where
  "isNaN NaN = True"
| "isNaN _ = False"

fun Number_isInteger :: "jsnum \<Rightarrow> bool" where
  "Number_isInteger (Fin r) = (of_int \<lfloor>r\<rfloor> = r)"
| "Number_isInteger _ = False"

text \<open>\<open>a < b\<close> on numbers; every comparison with \<open>NaN\<close> is false.\<close>

fun js_less :: "jsnum \<Rightarrow> jsnum \<Rightarrow> bool" where
  "js_less NaN _ = False"
| "js_less _ NaN = False"
| "js_less _ NegInf = False"
| "js_less NegInf _ = True"
| "js_less PosInf _ = False"
| "js_less (Fin a) PosInf = True"
| "js_less (Fin a) (Fin b) = (a < b)"

datatype scalar = SString string | SNumber jsnum | SBoolean bool

text \<open>
  The built-ins the validator calls: \<open>Number(s)\<close>, the printing of a number inside a
  template literal, whether \<open>new URL(s)\<close> returns, the test of the literal
  \<open>/^[^\s@]+@[^\s@]+\.[^\s@]+$/\<close>, and \<open>new RegExp(p)\<close>, which throws a
  \<open>SyntaxError\<close> (\<open>None\<close>) or gives the matcher that \<open>regex.test\<close> runs.
\<close>

record platform =
  Number :: "string \<Rightarrow> jsnum"
  show_number :: "jsnum \<Rightarrow> string"
  URL_parses :: "string \<Rightarrow> bool"
  emailRegex_test :: "string \<Rightarrow> bool"
  RegExp :: "string \<Rightarrow> (string \<Rightarrow> bool) option"

text \<open>\<open>String.prototype.toLowerCase\<close> on the letters A to Z; the other characters stay.\<close>

definition lower_char :: "char \<Rightarrow> char" where
  "lower_char c =
     (let n = (of_char c :: nat) in if 65 \<le> n \<and> n \<le> 90 then char_of (n + 32) else c)"

definition toLowerCase :: "string \<Rightarrow> string" where
  "toLowerCase s = map lower_char s"

text \<open>\<open>Array.prototype.join\<close> with a separator.\<close>

fun join :: "string \<Rightarrow> string list \<Rightarrow> string" where
  "join sep [] = []"
| "join sep [x] = x"
| "join sep (x # y # ys) = x @ sep @ join sep (y # ys)"

text \<open>A value between double quotes, as in the template literal \<open>got "${value}"\<close>.\<close>

definition quoted :: "string \<Rightarrow> string" where
  "quoted v = CHR 0x22 # v @ [CHR 0x22]"

section \<open>The schema model (src/schema/types.ts)\<close>

text \<open>
  \<open>SchemaKey\<close>. The fields \<open>default\<close>, \<open>enum\<close>, \<open>min\<close> and \<open>max\<close> carry the suffix
  \<open>_k\<close>. The \<open>type\<close> is kept as the string the loader stored, since the JSON loader
  copies it unchecked and the validator's \<open>switch\<close> has a \<open>default\<close> branch.
\<close>

record SchemaKey =
  name :: string
  type :: string
  description :: "string option"
  default_k :: "scalar option"
  example :: "scalar option"
  enum_k :: "string list option"
  pattern :: "string option"
  required :: bool
  secret :: bool
  deprecated :: "bool option"
  replacedBy :: "string option"
  min_k :: "jsnum option"
  max_k :: "jsnum option"

datatype schema_source = zod | json

record Schema =
  keys :: "SchemaKey Record"
  source :: schema_source
  path :: string

text \<open>The issue types \<open>'missing' | 'type' | 'unknown' | 'deprecated' | 'pattern'\<close>.\<close>

datatype issue_kind = missing | type_issue | unknown | deprecated_issue | pattern_issue

text \<open>
  \<open>ValidationIssue\<close>: \<open>key\<close>, \<open>type\<close> (here \<open>issue_type\<close>), \<open>message\<close> and
  \<open>replacedBy\<close> (here \<open>issue_replacedBy\<close>). The \<open>stats\<close> of a result are
  \<open>checked\<close>, \<open>missing\<close>, \<open>deprecated\<close> and \<open>unknown\<close>; the last three carry the
  prefix \<open>stats_\<close>.
\<close>

record ValidationIssue =
  key :: string
  issue_type :: issue_kind
  message :: string
  issue_replacedBy :: "string option"

record Stats =
  checked :: nat
  stats_missing :: nat
  stats_deprecated :: nat
  stats_unknown :: nat

record ValidationResult =
  ok :: bool
  errors :: "ValidationIssue list"
  warnings :: "ValidationIssue list"
  files :: "string list"
  stats :: Stats

text \<open>Truthiness of an optional boolean; an optional string is truthy when it is present
  and not empty, which the definitions below write out.\<close>

definition truthy_bool :: "bool option \<Rightarrow> bool" where
  "truthy_bool b = (b = Some True)"

text \<open>The options of \<open>validateEnv\<close>; both fields are optional in the source.\<close>

record Options =
  strict :: "bool option"
  failOnWarn :: "bool option"

section \<open>The type validator (validateEnvValue, validatePattern)\<close>

text \<open>
  The functions return \<open>{ valid: true }\<close> or \<open>{ valid: false, error: msg }\<close>; these are
  \<open>Valid\<close> and \<open>Invalid msg\<close>.
\<close>

datatype validation = Valid | Invalid string

definition boolean_words :: "string list" where
  "boolean_words = [''true'', ''false'', ''1'', ''0'', ''yes'', ''no'', ''on'', ''off'']"

definition below_minimum :: "platform \<Rightarrow> jsnum \<Rightarrow> jsnum option \<Rightarrow> string option" where
  "below_minimum P num mn =
     (case mn of
        None \<Rightarrow> None
      | Some m \<Rightarrow>
          if js_less num m
          then Some (''Value '' @ show_number P num @ '' is below minimum '' @ show_number P m)
          else None)"

definition above_maximum :: "platform \<Rightarrow> jsnum \<Rightarrow> jsnum option \<Rightarrow> string option" where
  "above_maximum P num mx =
     (case mx of
        None \<Rightarrow> None
      | Some m \<Rightarrow>
          if js_less m num
          then Some (''Value '' @ show_number P num @ '' is above maximum '' @ show_number P m)
          else None)"

definition validate_number :: "platform \<Rightarrow> string \<Rightarrow> SchemaKey \<Rightarrow> validation" where
  "validate_number P value keyDef =
     (let num = Number P value in
      if isNaN num then Invalid (''Expected number, got '' @ quoted value)
      else if type keyDef = ''int'' \<and> \<not> Number_isInteger num
        then Invalid (''Expected integer, got '' @ quoted value)
      else case below_minimum P num (min_k keyDef) of
        Some e \<Rightarrow> Invalid e
      | None \<Rightarrow>
          (case above_maximum P num (max_k keyDef) of
             Some e \<Rightarrow> Invalid e
           | None \<Rightarrow> Valid))"

definition validate_enum :: "string \<Rightarrow> SchemaKey \<Rightarrow> validation" where
  "validate_enum value keyDef =
     (case enum_k keyDef of
        None \<Rightarrow> Invalid (''Expected one of [undefined], got '' @ quoted value)
      | Some vs \<Rightarrow>
          if value \<in> set vs then Valid
          else Invalid (''Expected one of ['' @ join '', '' vs @ ''], got '' @ quoted value))"

definition validate_port :: "platform \<Rightarrow> string \<Rightarrow> validation" where
  "validate_port P value =
     (let port = Number P value in
      if isNaN port \<or> \<not> Number_isInteger port \<or> js_less port (Fin 1) \<or> js_less (Fin 65535) port
      then Invalid (''Expected port number (1-65535), got '' @ quoted value)
      else Valid)"

definition validateEnvValue :: "platform \<Rightarrow> string \<Rightarrow> SchemaKey \<Rightarrow> validation" where
  "validateEnvValue P value keyDef =
     (if value = [] \<and> required keyDef then Invalid ''Required key missing''
      else if value = [] then Valid
      else if type keyDef = ''string'' then Valid
      else if type keyDef = ''number'' \<or> type keyDef = ''int'' then validate_number P value keyDef
      else if type keyDef = ''boolean'' then
        (if toLowerCase value \<in> set boolean_words then Valid
         else Invalid (''Expected boolean, got '' @ quoted value))
      else if type keyDef = ''url'' then
        (if URL_parses P value then Valid
         else Invalid (''Expected valid URL, got '' @ quoted value))
      else if type keyDef = ''email'' then
        (if emailRegex_test P value then Valid
         else Invalid (''Expected valid email, got '' @ quoted value))
      else if type keyDef = ''enum'' then validate_enum value keyDef
      else if type keyDef = ''port'' then validate_port P value
      else Valid)"

definition validatePattern :: "platform \<Rightarrow> string \<Rightarrow> string \<Rightarrow> validation" where
  "validatePattern P value pat =
     (case RegExp P pat of
        None \<Rightarrow> Invalid (''Invalid regex pattern: '' @ pat)
      | Some regex \<Rightarrow>
          if \<not> regex value then Invalid (''Value does not match pattern: '' @ pat)
          else Valid)"

section \<open>The validation orchestrator (validateEnv)\<close>

definition missing_issue :: "string \<Rightarrow> ValidationIssue" where
  "missing_issue keyName =
     \<lparr>key = keyName, issue_type = missing, message = ''Required key missing'',
      issue_replacedBy = None\<rparr>"

definition type_issue_of :: "string \<Rightarrow> string \<Rightarrow> ValidationIssue" where
  "type_issue_of keyName msg =
     \<lparr>key = keyName, issue_type = type_issue, message = msg, issue_replacedBy = None\<rparr>"

definition pattern_issue_of :: "string \<Rightarrow> string \<Rightarrow> ValidationIssue" where
  "pattern_issue_of keyName msg =
     \<lparr>key = keyName, issue_type = pattern_issue, message = msg, issue_replacedBy = None\<rparr>"

definition deprecated_issue_of :: "string \<Rightarrow> SchemaKey \<Rightarrow> ValidationIssue" where
  "deprecated_issue_of keyName keyDef =
     \<lparr>key = keyName, issue_type = deprecated_issue,
      message = (case replacedBy keyDef of
                   None \<Rightarrow> ''This key is deprecated''
                 | Some r \<Rightarrow>
                     if r = [] then ''This key is deprecated''
                     else ''Deprecated. Use '' @ r @ '' instead''),
      issue_replacedBy = replacedBy keyDef\<rparr>"

definition unknown_issue :: "string \<Rightarrow> ValidationIssue" where
  "unknown_issue keyName =
     \<lparr>key = keyName, issue_type = unknown, message = ''Unknown key not defined in schema'',
      issue_replacedBy = None\<rparr>"

text \<open>The body of the first loop, over the entries of \<open>schema.keys\<close>.\<close>

definition check_missing ::
  "string Record \<Rightarrow> string \<times> SchemaKey \<Rightarrow> ValidationIssue list \<Rightarrow> ValidationIssue list" where
  "check_missing env = (\<lambda>(keyName, keyDef) errors.
     if required keyDef \<and> \<not> has_property env keyName then errors @ [missing_issue keyName]
     else errors)"

text \<open>
  The body of the second loop, over the entries of \<open>env\<close>; the state is the pair of the
  \<open>errors\<close> and \<open>warnings\<close> arrays. When \<open>schema.keys[keyName]\<close> is an inherited member
  of \<open>Object.prototype\<close>, \<open>if (keyDef)\<close> takes the first branch with a value that has no
  \<open>required\<close>, \<open>type\<close>, \<open>pattern\<close> or \<open>deprecated\<close> field: \<open>validateEnvValue\<close> returns
  valid (both tests on \<open>required\<close> and the \<open>switch\<close> fall through), the pattern and the
  deprecation steps are skipped, and nothing is pushed.
\<close>

definition check_key ::
  "platform \<Rightarrow> Schema \<Rightarrow> Options \<Rightarrow> string \<times> string
     \<Rightarrow> ValidationIssue list \<times> ValidationIssue list
     \<Rightarrow> ValidationIssue list \<times> ValidationIssue list" where
  "check_key P schema options = (\<lambda>(keyName, value) (errors, warnings).
     case get_property (keys schema) keyName of
       Own keyDef \<Rightarrow>
         let errors1 = (case validateEnvValue P value keyDef of
                          Valid \<Rightarrow> errors
                        | Invalid msg \<Rightarrow> errors @ [type_issue_of keyName msg]);
             errors2 = (case pattern keyDef of
                          None \<Rightarrow> errors1
                        | Some pat \<Rightarrow>
                            if pat = [] then errors1
                            else (case validatePattern P value pat of
                                    Valid \<Rightarrow> errors1
                                  | Invalid msg \<Rightarrow> errors1 @ [pattern_issue_of keyName msg]));
             warnings1 = (if truthy_bool (deprecated keyDef)
                          then warnings @ [deprecated_issue_of keyName keyDef]
                          else warnings)
         in (errors2, warnings1)
     | Inherited \<Rightarrow> (errors, warnings)
     | Undefined \<Rightarrow>
         if truthy_bool (strict options) then (errors @ [unknown_issue keyName], warnings)
         else (errors, warnings @ [unknown_issue keyName]))"

definition validateEnv ::
  "platform \<Rightarrow> string Record \<Rightarrow> Schema \<Rightarrow> Options \<Rightarrow> ValidationResult" where
  "validateEnv P env schema options =
     (let envKeys = map fst env;
          errors0 = fold (check_missing env) (keys schema) [];
          (errs, warns) = fold (check_key P schema options) env (errors0, []);
          st = \<lparr>checked = length envKeys,
                stats_missing = length (filter (\<lambda>e. issue_type e = missing) errs),
                stats_deprecated = length (filter (\<lambda>w. issue_type w = deprecated_issue) warns),
                stats_unknown = length (filter (\<lambda>w. issue_type w = unknown) warns)\<rparr>;
          hasErrors = (errs \<noteq> []);
          hasWarnings = (warns \<noteq> []);
          shouldFail = (hasErrors \<or> (truthy_bool (failOnWarn options) \<and> hasWarnings))
      in \<lparr>ok = \<not> shouldFail, errors = errs, warnings = warns, files = map fst env,
          stats = st\<rparr>)"

section \<open>Redaction (output/formatJson and the utility module)\<close>

text \<open>A value of type \<open>any\<close>: what \<open>JSON.parse\<close> can return.\<close>

datatype jsval = JNull | JBool bool | JNum jsnum | JStr string | JArr "jsval list"
  | JObj "(string \<times> jsval) list"

text \<open>\<open>typeof v === 'string'\<close>, and \<open>typeof v === 'object' && v !== null\<close>.\<close>

fun is_string :: "jsval \<Rightarrow> bool" where
  "is_string (JStr _) = True"
| "is_string _ = False"

fun is_object :: "jsval \<Rightarrow> bool" where
  "is_object (JArr _) = True"
| "is_object (JObj _) = True"
| "is_object _ = False"

text \<open>\<open>schema.keys?.[key]?.secret\<close>; an inherited member has no \<open>secret\<close> field.\<close>

definition is_secret :: "Schema \<Rightarrow> string \<Rightarrow> bool" where
  "is_secret schema k =
     (case get_property (keys schema) k of Own keyDef \<Rightarrow> secret keyDef | _ \<Rightarrow> False)"

text \<open>
  \<open>redactSecrets(obj, schema)\<close> of the JSON formatter. It sets the keys of the new
  object in the order of \<open>Object.entries(obj)\<close>, so the new object lists them in that
  order.
\<close>

fun redactSecrets :: "Schema \<Rightarrow> jsval \<Rightarrow> jsval" where
  "redactSecrets schema (JArr xs) = JArr (map (redactSecrets schema) xs)"
| "redactSecrets schema (JObj kvs) =
     JObj (map (\<lambda>(k, v). (k,
        if is_secret schema k \<and> is_string v then JStr ''<redacted>''
        else if is_object v then redactSecrets schema v
        else v)) kvs)"
| "redactSecrets schema v = v"

text \<open>The decimal name of an array index, the key \<open>Object.entries\<close> gives an element.\<close>

function show_nat :: "nat \<Rightarrow> string" where
  "show_nat n = (if n < 10 then [char_of (48 + n)] else show_nat (n div 10) @ [char_of (48 + n mod 10)])"
  by pat_completeness auto
termination by (relation "measure id") auto

text \<open>
  \<open>redactSecret(value)\<close> of the utility module masks with the bullet U+2022, one UTF-16
  unit; a \<open>char\<close> has eight bits, so the model writes the bullet as the single
  character 0x95.
\<close>

definition bullet :: char where "bullet = CHR 0x95"

definition redactSecret :: "string \<Rightarrow> string" where
  "redactSecret v =
     (if v = [] then v
      else if length v \<le> 4 then replicate (length v) bullet
      else take 2 v @ replicate (length v - 4) bullet @ drop (length v - 2) v)"

text \<open>
  \<open>redactSecrets(obj, secretKeys)\<close> of the utility module, named \<open>redactSecrets_keys\<close>
  here. It walks \<open>Object.entries(obj)\<close>; a nested array is walked through its index
  keys and comes back as a plain object.
\<close>

fun redactSecrets_keys :: "string list \<Rightarrow> jsval Record \<Rightarrow> jsval Record"
  and redact_array :: "string list \<Rightarrow> nat \<Rightarrow> jsval list \<Rightarrow> jsval Record"
  and redact_value :: "string list \<Rightarrow> string \<Rightarrow> jsval \<Rightarrow> jsval" where
  "redactSecrets_keys secretKeys [] = []"
| "redactSecrets_keys secretKeys (kv # kvs) =
     (fst kv, redact_value secretKeys (fst kv) (snd kv)) # redactSecrets_keys secretKeys kvs"
| "redact_array secretKeys i [] = []"
| "redact_array secretKeys i (v # vs) =
     (show_nat i, redact_value secretKeys (show_nat i) v) # redact_array secretKeys (Suc i) vs"
| "redact_value secretKeys k v =
     (case v of
        JStr s \<Rightarrow> if k \<in> set secretKeys then JStr (redactSecret s) else JStr s
      | JObj kvs \<Rightarrow> JObj (redactSecrets_keys secretKeys kvs)
      | JArr xs \<Rightarrow> JObj (redact_array secretKeys 0 xs)
      | _ \<Rightarrow> v)"


section \<open>The schema loaders (parseZodType, parseJsonKey)\<close>

text \<open>
  A Zod node: what \<open>parseZodType\<close> reads of it. \<open>zod_description\<close> is
  \<open>zodType.description\<close> when it is a string, \<open>zod_meta_secret\<close> the truth value of
  \<open>_def.meta && _def.meta.secret\<close>; \<open>ZodDefault\<close> carries the value its
  \<open>_def.defaultValue()\<close> returns; \<open>ZodOther\<close> is any other node class.
\<close>

record ZodDef =
  zod_description :: "string option"
  zod_meta_secret :: bool

datatype ZodCheck = check_url | check_email | check_regex string | check_int
  | check_min jsnum | check_max jsnum | check_other string

datatype ZodType =
    ZodString ZodDef "ZodCheck list"
  | ZodNumber ZodDef "ZodCheck list"
  | ZodBoolean ZodDef
  | ZodEnum ZodDef "string list"
  | ZodOptional ZodDef ZodType
  | ZodDefault ZodDef ZodType scalar
  | ZodOther ZodDef

fun zod_def :: "ZodType \<Rightarrow> ZodDef" where
  "zod_def (ZodString d _) = d"
| "zod_def (ZodNumber d _) = d"
| "zod_def (ZodBoolean d) = d"
| "zod_def (ZodEnum d _) = d"
| "zod_def (ZodOptional d _) = d"
| "zod_def (ZodDefault d _ _) = d"
| "zod_def (ZodOther d) = d"

fun zod_defaultValue :: "ZodType \<Rightarrow> scalar option" where
  "zod_defaultValue (ZodDefault _ _ v) = Some v"
| "zod_defaultValue _ = None"

fun is_regex_check :: "ZodCheck \<Rightarrow> bool" where
  "is_regex_check (check_regex _) = True"
| "is_regex_check _ = False"

fun is_min_check :: "ZodCheck \<Rightarrow> bool" where
  "is_min_check (check_min _) = True"
| "is_min_check _ = False"

fun is_max_check :: "ZodCheck \<Rightarrow> bool" where
  "is_max_check (check_max _) = True"
| "is_max_check _ = False"

fun check_value :: "ZodCheck \<Rightarrow> jsnum option" where
  "check_value (check_min v) = Some v"
| "check_value (check_max v) = Some v"
| "check_value _ = None"

text \<open>The steps of \<open>parseZodType\<close>, in the order of the source.\<close>

definition new_key :: "string \<Rightarrow> SchemaKey" where
  "new_key keyName =
     \<lparr>name = keyName, type = ''string'', description = None, default_k = None, example = None,
      enum_k = None, pattern = None, required = True, secret = False, deprecated = None,
      replacedBy = None, min_k = None, max_k = None\<rparr>"

definition extract_description :: "ZodType \<Rightarrow> SchemaKey \<Rightarrow> SchemaKey" where
  "extract_description zodType k =
     (case zod_description (zod_def zodType) of
        None \<Rightarrow> k
      | Some d \<Rightarrow> k\<lparr>description := Some d\<rparr>)"

definition extract_default :: "ZodType \<Rightarrow> SchemaKey \<Rightarrow> SchemaKey" where
  "extract_default zodType k =
     (case zod_defaultValue zodType of
        None \<Rightarrow> k
      | Some v \<Rightarrow> k\<lparr>default_k := Some v\<rparr>)"

definition extract_secret :: "ZodType \<Rightarrow> SchemaKey \<Rightarrow> SchemaKey" where
  "extract_secret zodType k =
     (if zod_meta_secret (zod_def zodType) then k\<lparr>secret := True\<rparr> else k)"

definition string_type :: "ZodCheck list \<Rightarrow> SchemaKey \<Rightarrow> SchemaKey" where
  "string_type checks k =
     (let k1 = k\<lparr>type := ''string''\<rparr>;
          k2 = (if check_url \<in> set checks then k1\<lparr>type := ''url''\<rparr> else k1);
          k3 = (if check_email \<in> set checks then k2\<lparr>type := ''email''\<rparr> else k2)
      in case find is_regex_check checks of
           Some (check_regex src) \<Rightarrow> k3\<lparr>pattern := Some src\<rparr>
         | _ \<Rightarrow> k3)"

definition number_type :: "ZodCheck list \<Rightarrow> SchemaKey \<Rightarrow> SchemaKey" where
  "number_type checks k =
     (let k1 = k\<lparr>type := ''number''\<rparr>;
          k2 = (if check_int \<in> set checks then k1\<lparr>type := ''int''\<rparr> else k1);
          minCheck = find is_min_check checks;
          maxCheck = find is_max_check checks;
          k3 = (if minCheck = Some (check_min (Fin 1)) \<and> maxCheck = Some (check_max (Fin 65535))
                then k2\<lparr>type := ''port''\<rparr> else k2);
          k4 = (case minCheck of None \<Rightarrow> k3 | Some c \<Rightarrow> k3\<lparr>min_k := check_value c\<rparr>)
      in case maxCheck of None \<Rightarrow> k4 | Some c \<Rightarrow> k4\<lparr>max_k := check_value c\<rparr>)"

text \<open>
  For a wrapper node the source fills the local \<open>key\<close>, sets \<open>key.required = false\<close>
  and then returns the result of the recursive call on the inner node; the local
  \<open>key\<close> (\<open>k'\<close> below) is not part of what it returns.
\<close>

fun parseZodType :: "string \<Rightarrow> ZodType \<Rightarrow> SchemaKey" where
  "parseZodType keyName (ZodOptional d innerType) =
     (let k = extract_default (ZodOptional d innerType)
                (extract_description (ZodOptional d innerType) (new_key keyName));
          k' = k\<lparr>required := False\<rparr>
      in parseZodType keyName innerType)"
| "parseZodType keyName (ZodDefault d innerType v) =
     (let k = extract_default (ZodDefault d innerType v)
                (extract_description (ZodDefault d innerType v) (new_key keyName));
          k' = k\<lparr>required := False\<rparr>
      in parseZodType keyName innerType)"
| "parseZodType keyName zodType =
     (let k = extract_secret zodType
                (extract_default zodType (extract_description zodType (new_key keyName)))
      in case zodType of
           ZodString _ checks \<Rightarrow> string_type checks k
         | ZodNumber _ checks \<Rightarrow> number_type checks k
         | ZodBoolean _ \<Rightarrow> k\<lparr>type := ''boolean''\<rparr>
         | ZodEnum _ vs \<Rightarrow> k\<lparr>type := ''enum'', enum_k := Some vs\<rparr>
         | _ \<Rightarrow> k)"

text \<open>
  An entry of the declarative file, with the fields the format documents.
\<close>

record JsonKeyDef =
  json_type :: "string option"
  json_description :: "string option"
  json_required :: "bool option"
  json_optional :: "bool option"
  json_default :: "scalar option"
  json_example :: "scalar option"
  json_enum :: "string list option"
  json_pattern :: "string option"
  json_deprecated :: "bool option"
  json_replacedBy :: "string option"
  json_secret :: "bool option"
  json_min :: "jsnum option"
  json_max :: "jsnum option"

text \<open>A string field is copied when it is truthy: present and not empty.\<close>

definition nonempty :: "string option \<Rightarrow> string option" where
  "nonempty s = (case s of None \<Rightarrow> None | Some v \<Rightarrow> if v = [] then None else Some v)"

definition parseJsonKey :: "string \<Rightarrow> JsonKeyDef \<Rightarrow> SchemaKey" where
  "parseJsonKey keyName keyDef =
     \<lparr>name = keyName,
      type = (case nonempty (json_type keyDef) of None \<Rightarrow> ''string'' | Some t \<Rightarrow> t),
      description = nonempty (json_description keyDef),
      default_k = json_default keyDef,
      example = json_example keyDef,
      enum_k = json_enum keyDef,
      pattern = nonempty (json_pattern keyDef),
      required = (\<not> truthy_bool (json_optional keyDef)),
      secret = truthy_bool (json_secret keyDef),
      deprecated = (if truthy_bool (json_deprecated keyDef) then Some True else None),
      replacedBy = nonempty (json_replacedBy keyDef),
      min_k = json_min keyDef,
      max_k = json_max keyDef\<rparr>"

section \<open>The value parser (parseEnvFiles)\<close>

text \<open>
  The file system is a parameter: a path is absent (\<open>existsSync\<close> false), present but
  \<open>readFileSync\<close> throws with a message, or present with a text. \<open>resolve\<close> and
  dotenv's \<open>parse\<close> are parameters as well. \<open>EnvFile.path\<close> and \<open>EnvFile.exists\<close>
  are \<open>file_path\<close> and \<open>file_exists\<close>; \<open>ParsedEnv.files\<close> is \<open>env_files\<close>.
\<close>

datatype file_state = Absent | Unreadable string | Content string

datatype error = Error string

record EnvFile =
  file_path :: string
  file_exists :: bool
  content :: "string Record"

record ParsedEnv =
  env_files :: "EnvFile list"
  merged :: "string Record"

text \<open>\<open>Object.assign(target, source)\<close>: each property of the source is set on the
  target, in order.\<close>

definition Object_assign :: "'v Record \<Rightarrow> 'v Record \<Rightarrow> 'v Record" where
  "Object_assign target src = fold (\<lambda>(k, v) t. set_property t k v) src target"

fun parseEnvFiles_loop ::
  "(string \<Rightarrow> string) \<Rightarrow> (string \<Rightarrow> file_state) \<Rightarrow> (string \<Rightarrow> string Record)
     \<Rightarrow> string list \<Rightarrow> EnvFile list \<Rightarrow> string Record \<Rightarrow> error + ParsedEnv" where
  "parseEnvFiles_loop resolve fs parse [] fls mrg = Inr \<lparr>env_files = fls, merged = mrg\<rparr>"
| "parseEnvFiles_loop resolve fs parse (envPath # rest) fls mrg =
     (let fullPath = resolve envPath in
      case fs fullPath of
        Absent \<Rightarrow>
          parseEnvFiles_loop resolve fs parse rest
            (fls @ [\<lparr>file_path = fullPath, file_exists = False, content = []\<rparr>])
            (Object_assign mrg [])
      | Unreadable msg \<Rightarrow> Inl (Error (''Failed to parse '' @ envPath @ '': '' @ msg))
      | Content text \<Rightarrow>
          parseEnvFiles_loop resolve fs parse rest
            (fls @ [\<lparr>file_path = fullPath, file_exists = True, content = parse text\<rparr>])
            (Object_assign mrg (parse text)))"

definition parseEnvFiles ::
  "(string \<Rightarrow> string) \<Rightarrow> (string \<Rightarrow> file_state) \<Rightarrow> (string \<Rightarrow> string Record)
     \<Rightarrow> string list \<Rightarrow> error + ParsedEnv" where
  "parseEnvFiles resolve fs parse envPaths = parseEnvFiles_loop resolve fs parse envPaths [] []"

text \<open>
  What one pass of the loop records for a path: the content is the parsed text of a
  readable file and empty otherwise.
\<close>

definition file_content ::
  "(string \<Rightarrow> string) \<Rightarrow> (string \<Rightarrow> file_state) \<Rightarrow> (string \<Rightarrow> string Record)
     \<Rightarrow> string \<Rightarrow> string Record" where
  "file_content resolve fs parse envPath =
     (case fs (resolve envPath) of Content text \<Rightarrow> parse text | _ \<Rightarrow> [])"

definition file_record ::
  "(string \<Rightarrow> string) \<Rightarrow> (string \<Rightarrow> file_state) \<Rightarrow> (string \<Rightarrow> string Record)
     \<Rightarrow> string \<Rightarrow> EnvFile" where
  "file_record resolve fs parse envPath =
     \<lparr>file_path = resolve envPath, file_exists = (fs (resolve envPath) \<noteq> Absent),
      content = file_content resolve fs parse envPath\<rparr>"

text \<open>
  The overlay as the specification words it: later files override earlier ones key by
  key, and a key present only in an earlier file survives. \<open>spec_overlay cs k\<close> is the
  value of \<open>k\<close> in the last of the contents \<open>cs\<close> that has it.
\<close>

fun spec_overlay :: "string Record list \<Rightarrow> string \<Rightarrow> string option" where
  "spec_overlay [] k = None"
| "spec_overlay (c # cs) k = (case spec_overlay cs k of Some v \<Rightarrow> Some v | None \<Rightarrow> map_of c k)"

section \<open>Sample platform and inputs for the concrete evaluations\<close>

text \<open>
  A small platform for evaluating the model on concrete inputs. Its \<open>Number\<close> reads
  the strings of decimal digits and answers \<open>NaN\<close> on every other string (right for
  a string that is no numeral, not for numerals such as 1.5 or 1e3); its
  \<open>show_number\<close> prints integers. Its \<open>RegExp\<close> covers the sources made of letters
  and digits only, which match as substrings as they do in JavaScript, and rejects
  every other source, among them the unterminated class \<open>[\<close>, a \<open>SyntaxError\<close> in
  JavaScript. It has no URL parser and no email test; no evaluation below reaches them.
\<close>

fun starts_with :: "string \<Rightarrow> string \<Rightarrow> bool" where
  "starts_with [] _ = True"
| "starts_with (p # ps) [] = False"
| "starts_with (p # ps) (c # cs) = (p = c \<and> starts_with ps cs)"

fun contains :: "string \<Rightarrow> string \<Rightarrow> bool" where
  "contains p [] = (p = [])"
| "contains p (c # cs) = (starts_with p (c # cs) \<or> contains p cs)"

definition alnum :: "char \<Rightarrow> bool" where
  "alnum c =
     (let n = (of_char c :: nat)
      in (48 \<le> n \<and> n \<le> 57) \<or> (65 \<le> n \<and> n \<le> 90) \<or> (97 \<le> n \<and> n \<le> 122))"

definition sample_Number :: "string \<Rightarrow> jsnum" where
  "sample_Number s =
     (if s \<noteq> [] \<and> list_all digit s then Fin (of_nat (digits_value s)) else NaN)"

fun sample_show_number :: "jsnum \<Rightarrow> string" where
  "sample_show_number NaN = ''NaN''"
| "sample_show_number PosInf = ''Infinity''"
| "sample_show_number NegInf = ''-Infinity''"
| "sample_show_number (Fin r) =
     (if r < 0 then ''-'' @ show_nat (nat \<lfloor>- r\<rfloor>) else show_nat (nat \<lfloor>r\<rfloor>))"

definition sample_platform :: platform where
  "sample_platform =
     \<lparr>Number = sample_Number,
      show_number = sample_show_number,
      URL_parses = (\<lambda>s. False),
      emailRegex_test = (\<lambda>s. False),
      RegExp = (\<lambda>p. if list_all alnum p then Some (contains p) else None)\<rparr>"

text \<open>dotenv's \<open>parse\<close> on a text of plain \<open>KEY=VALUE\<close> lines (no quotes, comments or
  blanks): each line sets its key on the object built so far.\<close>

fun split_lines :: "string \<Rightarrow> string list" where
  "split_lines [] = [[]]"
| "split_lines (c # cs) =
     (if c = CHR 0x0A then [] # split_lines cs
      else (case split_lines cs of [] \<Rightarrow> [[c]] | l # ls \<Rightarrow> (c # l) # ls))"

definition plain_parse :: "string \<Rightarrow> string Record" where
  "plain_parse text =
     fold (\<lambda>line obj.
             if CHR ''='' \<in> set line
             then set_property obj (takeWhile (\<lambda>c. c \<noteq> CHR ''='') line)
                    (tl (dropWhile (\<lambda>c. c \<noteq> CHR ''='') line))
             else obj)
          (split_lines text) []"

definition env_text :: string where
  "env_text = ''NODE_ENV=development'' @ [CHR 0x0A] @ ''PORT=3000''"

definition local_text :: string where
  "local_text = ''PORT=4000'' @ [CHR 0x0A] @ ''DEBUG=true''"

definition sample_fs :: "string \<Rightarrow> file_state" where
  "sample_fs p =
     (if p = ''.env'' then Content env_text
      else if p = ''.env.local'' then Content local_text
      else Absent)"

definition string_key :: "string \<Rightarrow> SchemaKey" where
  "string_key keyName =
     \<lparr>name = keyName, type = ''string'', description = None, default_k = None, example = None,
      enum_k = None, pattern = None, required = True, secret = False, deprecated = None,
      replacedBy = None, min_k = None, max_k = None\<rparr>"

definition schema_of :: "SchemaKey list \<Rightarrow> Schema" where
  "schema_of ks = \<lparr>keys = map (\<lambda>k. (name k, k)) ks, source = json, path = ''env.schema.json''\<rparr>"

definition no_def :: ZodDef where
  "no_def = \<lparr>zod_description = None, zod_meta_secret = False\<rparr>"

definition empty_entry :: JsonKeyDef where
  "empty_entry =
     \<lparr>json_type = None, json_description = None, json_required = None, json_optional = None,
      json_default = None, json_example = None, json_enum = None, json_pattern = None,
      json_deprecated = None, json_replacedBy = None, json_secret = None, json_min = None,
      json_max = None\<rparr>"

text \<open>A schema with one deprecated key.\<close>

definition old_key_schema :: Schema where
  "old_key_schema = schema_of [(string_key ''OLD_URL'')\<lparr>deprecated := Some True\<rparr>]"

text \<open>A schema with the one key \<open>NAME\<close> of type string.\<close>

definition name_schema :: "bool \<Rightarrow> string option \<Rightarrow> Schema" where
  "name_schema req pat = schema_of [(string_key ''NAME'')\<lparr>required := req, pattern := pat\<rparr>]"

text \<open>A schema whose one key \<open>SECRET_TOKEN\<close> is secret.\<close>

definition token_schema :: Schema where
  "token_schema = schema_of [(string_key ''SECRET_TOKEN'')\<lparr>secret := True\<rparr>]"

section \<open>Secrets in a redacted value\<close>

text \<open>The properties of an object, and the property that every string under a secret
  key, at any depth of a value, is the literal \<open><redacted>\<close>.\<close>

fun entries :: "jsval \<Rightarrow> jsval Record" where
  "entries (JObj kvs) = kvs"
| "entries _ = []"

fun all_secrets_literal :: "Schema \<Rightarrow> jsval \<Rightarrow> bool" where
  "all_secrets_literal schema (JArr xs) = list_all (all_secrets_literal schema) xs"
| "all_secrets_literal schema (JObj kvs) =
     list_all (\<lambda>kv. if is_secret schema (fst kv) \<and> is_string (snd kv)
                     then snd kv = JStr ''<redacted>''
                     else all_secrets_literal schema (snd kv)) kvs"
| "all_secrets_literal schema v = True"

section \<open>The issues one key contributes\<close>

text \<open>What one pass of the second loop appends to the two arrays.\<close>

definition key_errors ::
  "platform \<Rightarrow> Schema \<Rightarrow> Options \<Rightarrow> string \<times> string \<Rightarrow> ValidationIssue list" where
  "key_errors P schema options kv = fst (check_key P schema options kv ([], []))"

definition key_warnings ::
  "platform \<Rightarrow> Schema \<Rightarrow> Options \<Rightarrow> string \<times> string \<Rightarrow> ValidationIssue list" where
  "key_warnings P schema options kv = snd (check_key P schema options kv ([], []))"

text \<open>The issues of one kind for one key in a list of issues.\<close>

definition issues_of :: "issue_kind \<Rightarrow> string \<Rightarrow> ValidationIssue list \<Rightarrow> ValidationIssue list" where
  "issues_of kind k xs = filter (\<lambda>i. key i = k \<and> issue_type i = kind) xs"

section \<open>The two loops of validateEnv as lists\<close>

lemma get_property_Own: "map_of obj k = Some v \<Longrightarrow> get_property obj k = Own v"
  by (simp add: get_property_def)


lemma get_property_Inherited:
  "map_of obj k = None \<Longrightarrow> k \<in> set Object_prototype_names \<Longrightarrow> get_property obj k = Inherited"
  by (simp add: get_property_def)

lemma has_property_own: "k \<in> fst ` set obj \<Longrightarrow> has_property obj k"
  by (simp add: has_property_def)

lemma check_key_append:
  "check_key P schema options kv (es, ws) =
     (es @ key_errors P schema options kv, ws @ key_warnings P schema options kv)"
  by (cases kv)
     (simp add: check_key_def key_errors_def key_warnings_def Let_def
           split: property.splits option.splits validation.splits)

lemma fold_check_key:
  "fold (check_key P schema options) env (es, ws) =
     (es @ concat (map (key_errors P schema options) env),
      ws @ concat (map (key_warnings P schema options) env))"
  by (induction env arbitrary: es ws) (simp_all add: check_key_append)

lemma check_missing_step:
  "check_missing env kd es =
     es @ (if required (snd kd) \<and> \<not> has_property env (fst kd) then [missing_issue (fst kd)] else [])"
  by (cases kd) (simp add: check_missing_def)

lemma fold_check_missing:
  "fold (check_missing env) ks es =
     es @ map (\<lambda>kd. missing_issue (fst kd))
            (filter (\<lambda>kd. required (snd kd) \<and> \<not> has_property env (fst kd)) ks)"
  by (induction ks arbitrary: es) (simp_all add: check_missing_step)

lemma errors_validateEnv:
  "errors (validateEnv P env schema options) =
     map (\<lambda>kd. missing_issue (fst kd))
         (filter (\<lambda>kd. required (snd kd) \<and> \<not> has_property env (fst kd)) (keys schema))
     @ concat (map (key_errors P schema options) env)"
  by (simp add: validateEnv_def Let_def fold_check_key fold_check_missing)

lemma warnings_validateEnv:
  "warnings (validateEnv P env schema options) =
     concat (map (key_warnings P schema options) env)"
  by (simp add: validateEnv_def Let_def fold_check_key fold_check_missing)

lemma ok_validateEnv:
  "ok (validateEnv P env schema options) \<longleftrightarrow>
     errors (validateEnv P env schema options) = [] \<and>
     (warnings (validateEnv P env schema options) = [] \<or> \<not> truthy_bool (failOnWarn options))"
  by (auto simp add: validateEnv_def Let_def split: prod.splits)

lemma stats_validateEnv:
  "stats (validateEnv P env schema options) =
     \<lparr>checked = length env,
      stats_missing = length (filter (\<lambda>e. issue_type e = missing) (errors (validateEnv P env schema options))),
      stats_deprecated = length (filter (\<lambda>w. issue_type w = deprecated_issue) (warnings (validateEnv P env schema options))),
      stats_unknown = length (filter (\<lambda>w. issue_type w = unknown) (warnings (validateEnv P env schema options)))\<rparr>"
  by (simp add: validateEnv_def Let_def split: prod.splits)

text \<open>Every issue of one pass carries the key of the entry it handled.\<close>

lemma key_errors_key: "i \<in> set (key_errors P schema options kv) \<Longrightarrow> key i = fst kv"
  by (cases kv)
     (auto simp: key_errors_def check_key_def Let_def type_issue_of_def pattern_issue_of_def
                 unknown_issue_def
           split: property.splits option.splits validation.splits if_splits)

lemma key_warnings_key: "i \<in> set (key_warnings P schema options kv) \<Longrightarrow> key i = fst kv"
  by (cases kv)
     (auto simp: key_warnings_def check_key_def Let_def deprecated_issue_of_def unknown_issue_def
           split: property.splits option.splits validation.splits if_splits)

lemma filter_concat_other:
  assumes "\<And>kv i. i \<in> set (f kv) \<Longrightarrow> key i = fst kv" and "k \<notin> fst ` set env"
  shows "filter (\<lambda>i. key i = k \<and> Q i) (concat (map f env)) = []"
  using assms by (induction env) (auto simp: filter_empty_conv)

lemma filter_concat_key:
  assumes "\<And>kv i. i \<in> set (f kv) \<Longrightarrow> key i = fst kv"
    and "distinct (map fst env)" and "(k, v) \<in> set env"
  shows "filter (\<lambda>i. key i = k \<and> Q i) (concat (map f env)) = filter Q (f (k, v))"
  using assms(2,3)
proof (induction env)
  case Nil
  then show ?case by simp
next
  case (Cons a env)
  show ?case
  proof (cases "a = (k, v)")
    case True
    with Cons.prems have "k \<notin> fst ` set env" by auto
    then have "filter (\<lambda>i. key i = k \<and> Q i) (concat (map f env)) = []"
      using assms(1) by (rule filter_concat_other[rotated])
    moreover have "filter (\<lambda>i. key i = k \<and> Q i) (f (k, v)) = filter Q (f (k, v))"
      using assms(1)[of _ "(k, v)"] by (auto intro: filter_cong)
    ultimately show ?thesis using True by simp
  next
    case False
    with Cons.prems have in_env: "(k, v) \<in> set env" and ne: "fst a \<noteq> k"
      by (auto simp: rev_image_eqI)
    have "filter (\<lambda>i. key i = k \<and> Q i) (f a) = []"
      using assms(1)[of _ a] ne by (auto simp: filter_empty_conv)
    then show ?thesis using Cons.IH Cons.prems in_env by simp
  qed
qed

lemma issues_of_missing_part:
  "k \<in> fst ` set env \<Longrightarrow>
   filter (\<lambda>i. key i = k \<and> Q i)
     (map (\<lambda>kd. missing_issue (fst kd))
        (filter (\<lambda>kd. required (snd kd) \<and> \<not> has_property env (fst kd)) ks)) = []"
  by (auto simp: filter_empty_conv missing_issue_def has_property_def)

lemma errors_for_key:
  assumes "distinct (map fst env)" and "(k, v) \<in> set env"
  shows "filter (\<lambda>i. key i = k \<and> Q i) (errors (validateEnv P env schema options)) =
           filter Q (key_errors P schema options (k, v))"
proof -
  have "k \<in> fst ` set env" using assms(2) by (auto simp: rev_image_eqI)
  then show ?thesis
    unfolding errors_validateEnv filter_append
    using filter_concat_key[of "key_errors P schema options" env k v Q, OF key_errors_key assms]
    by (simp add: issues_of_missing_part)
qed

lemma warnings_for_key:
  assumes "distinct (map fst env)" and "(k, v) \<in> set env"
  shows "filter (\<lambda>i. key i = k \<and> Q i) (warnings (validateEnv P env schema options)) =
           filter Q (key_warnings P schema options (k, v))"
  unfolding warnings_validateEnv
  using filter_concat_key[of "key_warnings P schema options" env k v Q, OF key_warnings_key assms]
  by simp



lemma key_errors_declared:
  "map_of (keys schema) k = Some d \<Longrightarrow>
   key_errors P schema options (k, v) =
     (case validateEnvValue P v d of Valid \<Rightarrow> [] | Invalid msg \<Rightarrow> [type_issue_of k msg])
     @ (case pattern d of
          None \<Rightarrow> []
        | Some pat \<Rightarrow>
            if pat = [] then []
            else (case validatePattern P v pat of
                    Valid \<Rightarrow> []
                  | Invalid msg \<Rightarrow> [pattern_issue_of k msg]))"
  by (simp add: key_errors_def check_key_def Let_def get_property_Own
           split: option.splits validation.splits)

lemma type_errors_declared:
  "map_of (keys schema) k = Some d \<Longrightarrow>
   filter (\<lambda>i. issue_type i = type_issue) (key_errors P schema options (k, v)) =
     (case validateEnvValue P v d of Valid \<Rightarrow> [] | Invalid msg \<Rightarrow> [type_issue_of k msg])"
  by (simp add: key_errors_declared type_issue_of_def pattern_issue_of_def
           split: option.splits validation.splits)

lemma pattern_errors_declared:
  "map_of (keys schema) k = Some d \<Longrightarrow>
   filter (\<lambda>i. issue_type i = pattern_issue) (key_errors P schema options (k, v)) =
     (case pattern d of
        None \<Rightarrow> []
      | Some pat \<Rightarrow>
          if pat = [] then []
          else (case validatePattern P v pat of
                  Valid \<Rightarrow> []
                | Invalid msg \<Rightarrow> [pattern_issue_of k msg]))"
  by (simp add: key_errors_declared type_issue_of_def pattern_issue_of_def
           split: option.splits validation.splits)

lemma missing_errors_declared:
  "map_of (keys schema) k = Some d \<Longrightarrow>
   filter (\<lambda>i. issue_type i = missing) (key_errors P schema options (k, v)) = []"
  by (simp add: key_errors_declared type_issue_of_def pattern_issue_of_def
           split: option.splits validation.splits)

lemma key_warnings_declared:
  "map_of (keys schema) k = Some d \<Longrightarrow>
   key_warnings P schema options (k, v) =
     (if truthy_bool (deprecated d) then [deprecated_issue_of k d] else [])"
  by (simp add: key_warnings_def check_key_def Let_def get_property_Own
           split: option.splits validation.splits)

lemma issues_of_absent_key:
  assumes "k \<notin> fst ` set env"
  shows "issues_of kind k (concat (map (key_errors P schema options) env)) = []"
    and "issues_of kind k (warnings (validateEnv P env schema options)) = []"
  unfolding issues_of_def warnings_validateEnv
  using filter_concat_other[of "key_errors P schema options" k env, OF key_errors_key assms]
        filter_concat_other[of "key_warnings P schema options" k env, OF key_warnings_key assms]
  by simp_all

lemma issues_of_missing_kind:
  "kind \<noteq> missing \<Longrightarrow>
   issues_of kind k (map (\<lambda>kd. missing_issue (fst kd)) ks) = []"
  by (auto simp: issues_of_def filter_empty_conv missing_issue_def)

lemma validatePattern_range:
  "validatePattern P v pat = Valid
   \<or> validatePattern P v pat = Invalid (''Value does not match pattern: '' @ pat)
   \<or> validatePattern P v pat = Invalid (''Invalid regex pattern: '' @ pat)"
  by (simp add: validatePattern_def split: option.splits)

lemma warning_kinds:
  "i \<in> set (warnings (validateEnv P env schema options)) \<Longrightarrow>
   issue_type i = deprecated_issue \<or> issue_type i = unknown"
  by (auto simp: warnings_validateEnv key_warnings_def check_key_def Let_def
                 deprecated_issue_of_def unknown_issue_def
           split: property.splits option.splits if_splits)

lemma error_kinds:
  "i \<in> set (errors (validateEnv P env schema options)) \<Longrightarrow> issue_type i \<noteq> deprecated_issue"
  by (auto simp: errors_validateEnv key_errors_def check_key_def Let_def missing_issue_def
                 type_issue_of_def pattern_issue_of_def unknown_issue_def
           split: property.splits option.splits if_splits validation.splits)

lemma stats_counts:
  "checked (stats (validateEnv P env schema options)) = length (map fst env)
   \<and> stats_missing (stats (validateEnv P env schema options)) =
       length (filter (\<lambda>i. issue_type i = missing)
         (errors (validateEnv P env schema options) @ warnings (validateEnv P env schema options)))
   \<and> stats_deprecated (stats (validateEnv P env schema options)) =
       length (filter (\<lambda>i. issue_type i = deprecated_issue)
         (errors (validateEnv P env schema options) @ warnings (validateEnv P env schema options)))
   \<and> stats_unknown (stats (validateEnv P env schema options)) =
       length (filter (\<lambda>i. issue_type i = unknown) (warnings (validateEnv P env schema options)))"
proof -
  have "filter (\<lambda>i. issue_type i = missing) (warnings (validateEnv P env schema options)) = []"
    using warning_kinds[of _ P env schema options] by (fastforce simp: filter_empty_conv)
  moreover
  have "filter (\<lambda>i. issue_type i = deprecated_issue) (errors (validateEnv P env schema options)) = []"
    using error_kinds[of _ P env schema options] by (fastforce simp: filter_empty_conv)
  ultimately show ?thesis by (simp add: stats_validateEnv)
qed

text \<open>
  The type validator on the values of the repository's tests: a port out of range, a
  port in range, a value outside an enum, an integer below its minimum, a boolean word
  in mixed case.
\<close>

lemma sample_Number_digits:
  "sample_Number ''99999'' = Fin 99999 \<and> sample_Number ''3000'' = Fin 3000
   \<and> sample_Number ''7'' = Fin 7 \<and> sample_Number ''abc'' = NaN"
  by (simp add: sample_Number_def digit_def digits_value_def)

lemma port_out_of_range:
  "validateEnvValue sample_platform ''99999'' ((string_key ''PORT'')\<lparr>type := ''port''\<rparr>) =
     Invalid (''Expected port number (1-65535), got '' @ quoted ''99999'')"
  by (simp add: validateEnvValue_def validate_port_def sample_platform_def sample_Number_digits
        string_key_def)

lemma port_in_range:
  "validateEnvValue sample_platform ''3000'' ((string_key ''PORT'')\<lparr>type := ''port''\<rparr>) = Valid"
  by (simp add: validateEnvValue_def validate_port_def sample_platform_def sample_Number_digits
        string_key_def)

lemma enum_other_value:
  "validateEnvValue sample_platform ''staging''
     ((string_key ''NODE_ENV'')\<lparr>type := ''enum'',
        enum_k := Some [''development'', ''test'', ''production'']\<rparr>) =
     Invalid (''Expected one of [development, test, production], got '' @ quoted ''staging'')"
  by (simp add: validateEnvValue_def validate_enum_def string_key_def)

lemma int_below_minimum:
  "validateEnvValue sample_platform ''7''
     ((string_key ''WORKERS'')\<lparr>type := ''int'', min_k := Some (Fin 10)\<rparr>) =
     Invalid ''Value 7 is below minimum 10''"
  by (simp add: validateEnvValue_def validate_number_def sample_platform_def sample_Number_digits
        string_key_def below_minimum_def Let_def char_of_def bit_Suc_0_iff)

lemma boolean_mixed_case:
  "validateEnvValue sample_platform ''Yes'' ((string_key ''DEBUG'')\<lparr>type := ''boolean''\<rparr>) = Valid"
  by (simp add: validateEnvValue_def string_key_def toLowerCase_def lower_char_def
        boolean_words_def char_of_def bit_Suc_0_iff)

text \<open>Evaluating the model on concrete inputs.\<close>

lemmas run_simps = validateEnv_def schema_of_def string_key_def check_missing_def
  check_key_def validateEnvValue_def Let_def truthy_bool_def unknown_issue_def
  get_property_def has_property_def Object_prototype_names_def


lemma name_schema_lookup:
  "map_of (keys (name_schema req pat)) ''NAME'' =
     Some ((string_key ''NAME'')\<lparr>required := req, pattern := pat\<rparr>)"
  by (simp add: name_schema_def schema_of_def string_key_def)

text \<open>
  An env key named like a member of \<open>Object.prototype\<close> and absent from the schema gets
  no issue, and a required schema key of such a name that is absent from the mapping is
  not reported missing.
\<close>

lemma key_issues_inherited:
  "get_property (keys schema) k = Inherited \<Longrightarrow>
   key_errors P schema options (k, v) = [] \<and> key_warnings P schema options (k, v) = []"
  by (simp add: key_errors_def key_warnings_def check_key_def)

lemma inherited_name_run:
  "validateEnv sample_platform [(''constructor'', ''x'')] (schema_of [])
     \<lparr>strict = s, failOnWarn = fw\<rparr> =
     \<lparr>ok = True, errors = [], warnings = [], files = [''constructor''],
      stats = \<lparr>checked = 1, stats_missing = 0, stats_deprecated = 0, stats_unknown = 0\<rparr>\<rparr>"
  by (simp add: run_simps)

lemma inherited_name_not_missing:
  "errors (validateEnv sample_platform [] (schema_of [string_key ''toString''])
     \<lparr>strict = None, failOnWarn = None\<rparr>) = []"
  by (simp add: run_simps)

section \<open>The loaders, redaction and the overlay: auxiliary facts\<close>

text \<open>Whatever the node, \<open>parseZodType\<close> returns a required key without a default.\<close>

lemma parseZodType_required: "required (parseZodType keyName zodType)"
  by (induction keyName zodType rule: parseZodType.induct)
     (simp_all add: Let_def new_key_def extract_description_def extract_default_def
        extract_secret_def string_type_def number_type_def
        split: option.splits ZodCheck.splits)

lemma parseZodType_default: "default_k (parseZodType keyName zodType) = None"
  by (induction keyName zodType rule: parseZodType.induct)
     (simp_all add: Let_def new_key_def extract_description_def extract_default_def
        extract_secret_def string_type_def number_type_def
        split: option.splits ZodCheck.splits)

text \<open>\<open>parseJsonKey\<close> reads \<open>optional\<close> only.\<close>

lemma parseJsonKey_required:
  "required (parseJsonKey keyName keyDef) = (\<not> truthy_bool (json_optional keyDef))"
  by (simp add: parseJsonKey_def)

lemma redactSecrets_not_object: "\<not> is_object v \<Longrightarrow> redactSecrets schema v = v"
  by (cases v) simp_all

lemma redactSecrets_deep: "all_secrets_literal schema (redactSecrets schema v)"
proof (induction schema v rule: redactSecrets.induct)
  case (1 schema xs)
  then show ?case by (simp add: list_all_iff)
next
  case (2 schema kvs)
  show ?case
    unfolding redactSecrets.simps all_secrets_literal.simps list_all_iff
  proof
    fix kv assume "kv \<in> set (map (\<lambda>(k, v). (k,
        if is_secret schema k \<and> is_string v then JStr ''<redacted>''
        else if is_object v then redactSecrets schema v
        else v)) kvs)"
    then obtain k v where kv: "(k, v) \<in> set kvs"
      and eq: "kv = (k, if is_secret schema k \<and> is_string v then JStr ''<redacted>''
        else if is_object v then redactSecrets schema v else v)"
      by auto
    show "if is_secret schema (fst kv) \<and> is_string (snd kv)
          then snd kv = JStr ''<redacted>''
          else all_secrets_literal schema (snd kv)"
    proof (cases "is_secret schema k \<and> is_string v")
      case True
      with eq show ?thesis by simp
    next
      case False
      show ?thesis
      proof (cases "is_object v")
        case True
        with False have "all_secrets_literal schema (redactSecrets schema v)"
          using "2.IH"[OF kv refl] by blast
        moreover have "\<not> is_string (redactSecrets schema v)"
          using True by (cases v) simp_all
        ultimately show ?thesis using eq False True by simp
      next
        case nobj: False
        then have "all_secrets_literal schema v" by (cases v) simp_all
        with eq False nobj show ?thesis by auto
      qed
    qed
  qed
qed simp_all

lemma redactSecrets_lookup:
  "map_of (entries (redactSecrets schema (JObj kvs))) k =
     map_option (\<lambda>v. if is_secret schema k \<and> is_string v then JStr ''<redacted>''
                      else redactSecrets schema v) (map_of kvs k)"
  by (induction kvs) (auto simp: redactSecrets_not_object)

lemma redactSecrets_keys_lookup:
  "map_of (redactSecrets_keys secretKeys obj) k =
     map_option (redact_value secretKeys k) (map_of obj k)"
  by (induction obj) auto

lemma redactSecrets_keys_entry:
  "(k, JStr s) \<in> set obj \<Longrightarrow> k \<in> set secretKeys \<Longrightarrow>
   (k, JStr (redactSecret s)) \<in> set (redactSecrets_keys secretKeys obj)"
  by (induction obj) auto

lemma redactSecret_length: "length (redactSecret s) = length s"
  by (auto simp: redactSecret_def)

lemma redactSecret_short: "length s \<le> 4 \<Longrightarrow> redactSecret s = replicate (length s) bullet"
  by (auto simp: redactSecret_def)

lemma redactSecret_long:
  "4 < length s \<Longrightarrow>
     redactSecret s = take 2 s @ replicate (length s - 4) bullet @ drop (length s - 2) s
     \<and> take 2 (redactSecret s) = take 2 s
     \<and> drop (length s - 2) (redactSecret s) = drop (length s - 2) s"
  by (auto simp: redactSecret_def)

text \<open>Setting a property, and \<open>Object.assign\<close>, on the lookups: the source wins.\<close>

lemma map_of_insert_index:
  "fst kv \<notin> fst ` set obj \<Longrightarrow>
   map_of (insert_index i kv obj) x = (if x = fst kv then Some (snd kv) else map_of obj x)"
  by (induction obj) (auto split: option.splits)

lemma map_of_append_new:
  "k \<notin> fst ` set obj \<Longrightarrow>
   map_of (obj @ [(k, v)]) x = (if x = k then Some v else map_of obj x)"
  by (induction obj) auto

lemma map_of_set_property: "map_of (set_property obj k v) = (map_of obj)(k \<mapsto> v)"
proof
  fix x
  show "map_of (set_property obj k v) x = ((map_of obj)(k \<mapsto> v)) x"
  proof (cases "k \<in> fst ` set obj")
    case True
    then show ?thesis by (simp add: set_property_def update_conv')
  next
    case False
    then have sp: "set_property obj k v =
        (case array_index k of Some i \<Rightarrow> insert_index i (k, v) obj | None \<Rightarrow> obj @ [(k, v)])"
      by (simp add: set_property_def)
    show ?thesis
    proof (cases "array_index k")
      case None
      have "map_of (obj @ [(k, v)]) x = (if x = k then Some v else map_of obj x)"
        by (rule map_of_append_new[OF False])
      with sp None show ?thesis by (simp del: map_of_append)
    next
      case (Some i)
      from False have "fst (k, v) \<notin> fst ` set obj" by simp
      then have "map_of (insert_index i (k, v) obj) x =
          (if x = fst (k, v) then Some (snd (k, v)) else map_of obj x)"
        by (rule map_of_insert_index)
      with sp Some show ?thesis by simp
    qed
  qed
qed

lemma set_insert_index: "set (insert_index i kv obj) = insert kv (set obj)"
  by (induction obj) (auto split: option.splits)

lemma distinct_insert_index:
  "distinct (map fst obj) \<Longrightarrow> fst kv \<notin> fst ` set obj \<Longrightarrow> distinct (map fst (insert_index i kv obj))"
  by (induction obj) (auto simp: set_insert_index split: option.splits)

lemma distinct_set_property:
  "distinct (map fst obj) \<Longrightarrow> distinct (map fst (set_property obj k v))"
  by (auto simp: set_property_def distinct_update distinct_insert_index split: option.splits)

lemma map_of_Object_assign:
  "distinct (map fst src) \<Longrightarrow> map_of (Object_assign target src) = map_of target ++ map_of src"
proof (induction src arbitrary: target)
  case Nil
  then show ?case by (simp add: Object_assign_def)
next
  case (Cons kv src)
  obtain k v where kv: "kv = (k, v)" by (cases kv)
  from Cons.prems kv have nk: "k \<notin> fst ` set src" and d: "distinct (map fst src)" by auto
  have "Object_assign target (kv # src) = Object_assign (set_property target k v) src"
    by (simp add: Object_assign_def kv)
  then have "map_of (Object_assign target (kv # src)) = map_of (set_property target k v) ++ map_of src"
    using Cons.IH[OF d] by (simp only:)
  then have "map_of (Object_assign target (kv # src)) = (map_of target)(k \<mapsto> v) ++ map_of src"
    by (simp only: map_of_set_property)
  also have "\<dots> = map_of target ++ map_of (kv # src)"
  proof
    fix x
    from nk have "map_of src k = None" by (simp add: map_of_eq_None_iff)
    then show "((map_of target)(k \<mapsto> v) ++ map_of src) x = (map_of target ++ map_of (kv # src)) x"
      by (auto simp: map_add_def kv split: option.splits)
  qed
  finally show ?case .
qed

lemma distinct_Object_assign:
  "distinct (map fst target) \<Longrightarrow> distinct (map fst (Object_assign target src))"
  unfolding Object_assign_def
  by (induction src arbitrary: target) (auto simp: distinct_set_property)

lemma parseEnvFiles_loop_readable:
  assumes "\<forall>p\<in>set ps. \<forall>msg. fs (resolve p) \<noteq> Unreadable msg"
  shows "parseEnvFiles_loop resolve fs parse ps fls mrg =
     Inr \<lparr>env_files = fls @ map (file_record resolve fs parse) ps,
          merged = fold (\<lambda>p m. Object_assign m (file_content resolve fs parse p)) ps mrg\<rparr>"
  using assms
proof (induction ps arbitrary: fls mrg)
  case Nil
  then show ?case by simp
next
  case (Cons p ps)
  then have rest: "\<forall>p\<in>set ps. \<forall>msg. fs (resolve p) \<noteq> Unreadable msg"
    and here: "\<forall>msg. fs (resolve p) \<noteq> Unreadable msg" by auto
  show ?case
    using here Cons.IH[OF rest]
    by (cases "fs (resolve p)") (simp_all add: Let_def file_record_def file_content_def)
qed

lemma parseEnvFiles_loop_unreadable:
  assumes "\<forall>p\<in>set ps. \<forall>msg. fs (resolve p) \<noteq> Unreadable msg"
    and "fs (resolve q) = Unreadable msg"
  shows "parseEnvFiles_loop resolve fs parse (ps @ q # qs) fls mrg =
           Inl (Error (''Failed to parse '' @ q @ '': '' @ msg))"
  using assms
proof (induction ps arbitrary: fls mrg)
  case Nil
  then show ?case by (simp add: Let_def)
next
  case (Cons p ps)
  then have rest: "\<forall>p\<in>set ps. \<forall>msg. fs (resolve p) \<noteq> Unreadable msg"
    and here: "\<forall>msg. fs (resolve p) \<noteq> Unreadable msg" by auto
  show ?case
    using here Cons.IH[OF rest Cons.prems(2)]
    by (cases "fs (resolve p)") (simp_all add: Let_def)
qed

lemma map_of_fold_assign:
  assumes "\<forall>p\<in>set ps. distinct (map fst (f p))"
  shows "map_of (fold (\<lambda>p m. Object_assign m (f p)) ps mrg) k =
           (case spec_overlay (map f ps) k of Some v \<Rightarrow> Some v | None \<Rightarrow> map_of mrg k)"
  using assms
proof (induction ps arbitrary: mrg)
  case Nil
  then show ?case by simp
next
  case (Cons p ps)
  then have d: "distinct (map fst (f p))" and rest: "\<forall>p\<in>set ps. distinct (map fst (f p))"
    by auto
  show ?case
    using Cons.IH[OF rest, of "Object_assign mrg (f p)"]
    by (simp add: map_of_Object_assign[OF d] map_add_def split: option.splits)
qed

text \<open>The sample files, and an object with array indices among its keys.\<close>

lemmas set_simps = set_property_def array_index_def digit_def

lemma plain_parse_env:
  "plain_parse env_text = [(''NODE_ENV'', ''development''), (''PORT'', ''3000'')]"
  by (simp add: plain_parse_def env_text_def set_simps)

lemma plain_parse_local:
  "plain_parse local_text = [(''PORT'', ''4000''), (''DEBUG'', ''true'')]"
  by (simp add: plain_parse_def local_text_def set_simps)

lemma sample_contents:
  "file_content (\<lambda>p. p) sample_fs plain_parse ''.env'' =
     [(''NODE_ENV'', ''development''), (''PORT'', ''3000'')]"
  "file_content (\<lambda>p. p) sample_fs plain_parse ''.env.local'' =
     [(''PORT'', ''4000''), (''DEBUG'', ''true'')]"
  "file_content (\<lambda>p. p) sample_fs plain_parse ''.env.test'' = []"
  by (simp_all add: file_content_def sample_fs_def plain_parse_env plain_parse_local)

lemma sample_merge:
  "parseEnvFiles (\<lambda>p. p) sample_fs plain_parse [''.env'', ''.env.local'', ''.env.test''] =
     Inr \<lparr>env_files = [\<lparr>file_path = ''.env'', file_exists = True,
                        content = [(''NODE_ENV'', ''development''), (''PORT'', ''3000'')]\<rparr>,
                      \<lparr>file_path = ''.env.local'', file_exists = True,
                        content = [(''PORT'', ''4000''), (''DEBUG'', ''true'')]\<rparr>,
                      \<lparr>file_path = ''.env.test'', file_exists = False, content = []\<rparr>],
          merged = [(''NODE_ENV'', ''development''), (''PORT'', ''4000''), (''DEBUG'', ''true'')]\<rparr>"
  by (simp add: parseEnvFiles_def sample_fs_def Let_def plain_parse_env plain_parse_local
        Object_assign_def set_simps)

lemma index_keys_first:
  "Object_assign [(''b'', ''1'')] [(''10'', ''x''), (''a'', ''y''), (''2'', ''z'')] =
     [(''2'', ''z''), (''10'', ''x''), (''b'', ''1''), (''a'', ''y'')]"
  by (simp add: Object_assign_def set_simps digits_value_def)

section \<open>C1: optional and default wrappers of the Zod schema\<close>

text \<open>
  C1. The claim: a field whose node is an optional or a default wrapper is normalized to
  \<open>required = false\<close>, with the wrapper's default value stored. The code sets both on
  a local key and returns the key of the inner node instead: the optional boolean
  \<open>DEBUG\<close> comes out as a required boolean without its description, and the port with
  the default 3000 comes out without a default.
\<close>

theorem parseZodType_optional_boolean:
  "parseZodType ''DEBUG''
     (ZodOptional \<lparr>zod_description = Some ''Debug mode'', zod_meta_secret = False\<rparr>
        (ZodBoolean no_def)) =
     (new_key ''DEBUG'')\<lparr>type := ''boolean''\<rparr>
   \<and> required (parseZodType ''DEBUG''
     (ZodOptional \<lparr>zod_description = Some ''Debug mode'', zod_meta_secret = False\<rparr>
        (ZodBoolean no_def)))
   \<and> default_k (parseZodType ''PORT''
     (ZodDefault no_def (ZodNumber no_def [check_int, check_min (Fin 1), check_max (Fin 65535)])
        (SNumber (Fin 3000)))) = None"
  by (simp add: Let_def new_key_def no_def_def extract_description_def extract_default_def
        extract_secret_def number_type_def)

section \<open>C2: the required flag of a JSON entry\<close>

text \<open>
  C2. The claim: \<open>required\<close> is the negation of \<open>optional\<close> when that is present and
  the entry's own \<open>required\<close> flag otherwise. The code never reads the entry's
  \<open>required\<close> flag: the entry \<open>FEATURE_X\<close> of the generated template, which carries
  \<open>required: false\<close> and no \<open>optional\<close>, is normalized to a required key.
\<close>

theorem parseJsonKey_required_false:
  "required (parseJsonKey ''FEATURE_X''
     (empty_entry\<lparr>json_type := Some ''enum'', json_enum := Some [''on'', ''off''],
        json_description := Some ''Toggle feature X'', json_required := Some False\<rparr>))"
  by (simp add: parseJsonKey_def empty_entry_def truthy_bool_def)

section \<open>C3: when a run is ok\<close>

text \<open>
  C3. The \<open>ok\<close> field of the result is true exactly when the errors list is empty and
  the warnings list is empty or \<open>failOnWarn\<close> is not set. In particular a result with
  no error and one warning is ok exactly when \<open>failOnWarn\<close> is not set.
\<close>

theorem validateEnv_ok_iff:
  "(ok (validateEnv P env schema options) \<longleftrightarrow>
      errors (validateEnv P env schema options) = [] \<and>
      (warnings (validateEnv P env schema options) = [] \<or> \<not> truthy_bool (failOnWarn options)))
   \<and> (errors (validateEnv P env schema options) = [] \<and>
        length (warnings (validateEnv P env schema options)) = 1 \<longrightarrow>
        (ok (validateEnv P env schema options) \<longleftrightarrow> \<not> truthy_bool (failOnWarn options)))"
proof -
  have "warnings (validateEnv P env schema options) \<noteq> []"
    if "length (warnings (validateEnv P env schema options)) = 1"
    using that by auto
  then show ?thesis
    using ok_validateEnv[of P env schema options] by blast
qed

text \<open>A deprecated key that is present: no error, one warning.\<close>

lemma old_key_errors:
  "errors (validateEnv sample_platform [(''OLD_URL'', ''x'')] old_key_schema
      \<lparr>strict = None, failOnWarn = fw\<rparr>) = []"
  by (simp add: run_simps old_key_schema_def)

lemma old_key_warnings:
  "warnings (validateEnv sample_platform [(''OLD_URL'', ''x'')] old_key_schema
      \<lparr>strict = None, failOnWarn = fw\<rparr>) =
     [\<lparr>key = ''OLD_URL'', issue_type = deprecated_issue, message = ''This key is deprecated'',
       issue_replacedBy = None\<rparr>]"
  by (simp add: run_simps old_key_schema_def deprecated_issue_of_def)

theorem validateEnv_ok_iff_witness:
  "ok (validateEnv sample_platform [(''OLD_URL'', ''x'')] old_key_schema
         \<lparr>strict = None, failOnWarn = Some False\<rparr>)
   \<and> \<not> ok (validateEnv sample_platform [(''OLD_URL'', ''x'')] old_key_schema
         \<lparr>strict = None, failOnWarn = Some True\<rparr>)"
  using validateEnv_ok_iff[of sample_platform "[(''OLD_URL'', ''x'')]" old_key_schema
          "\<lparr>strict = None, failOnWarn = Some False\<rparr>"]
        validateEnv_ok_iff[of sample_platform "[(''OLD_URL'', ''x'')]" old_key_schema
          "\<lparr>strict = None, failOnWarn = Some True\<rparr>"]
  by (simp add: old_key_errors old_key_warnings truthy_bool_def)

section \<open>C4: undeclared keys\<close>




section \<open>C5: the counts\<close>

text \<open>
  C5. The claim: \<open>stats.checked\<close> is the number of keys of the mapping, and
  \<open>stats.missing\<close>, \<open>stats.deprecated\<close> and \<open>stats.unknown\<close> count the issues of
  their kind in both lists. The first three hold (\<open>stats_counts\<close> above), but
  \<open>stats.unknown\<close> counts the warnings only: in strict mode the unknown key is an
  error and \<open>stats.unknown\<close> is 0.
\<close>

theorem stats_unknown_strict:
  "errors (validateEnv sample_platform [(''UNKNOWN_KEY'', ''value'')] (schema_of [])
       \<lparr>strict = Some True, failOnWarn = None\<rparr>) = [unknown_issue ''UNKNOWN_KEY'']
   \<and> stats_unknown (stats (validateEnv sample_platform [(''UNKNOWN_KEY'', ''value'')] (schema_of [])
       \<lparr>strict = Some True, failOnWarn = None\<rparr>)) = 0"
  by (simp add: run_simps)

section \<open>C6: the overlay of a sequence of files\<close>

text \<open>
  C6. For every ordered sequence of env files of which none fails to read,
  \<open>parseEnvFiles\<close> returns, the recorded contents are those of the files in order, and
  the merged mapping is the left-to-right overlay of the contents: each key has the
  value of the last file that has it. For two files [A, B] a key of B has B's value
  and any other key of A keeps A's value; where A and B disagree on a key, the order
  [A, B] gives B's value, the order [B, A] gives A's, and the two merged mappings differ.
\<close>

theorem parseEnvFiles_overlay:
  assumes "\<forall>p\<in>set envPaths. \<forall>msg. fs (resolve p) \<noteq> Unreadable msg"
    and "\<forall>p\<in>set envPaths. distinct (map fst (file_content resolve fs parse p))"
  shows "\<exists>r. parseEnvFiles resolve fs parse envPaths = Inr r
         \<and> map content (env_files r) = map (file_content resolve fs parse) envPaths
         \<and> (\<forall>k. map_of (merged r) k = spec_overlay (map (file_content resolve fs parse) envPaths) k)
         \<and> (\<forall>a b. envPaths = [a, b] \<longrightarrow>
              (\<exists>rba. parseEnvFiles resolve fs parse [b, a] = Inr rba
                 \<and> (\<forall>k. map_of (merged r) k =
                       (case map_of (file_content resolve fs parse b) k of
                          Some v \<Rightarrow> Some v
                        | None \<Rightarrow> map_of (file_content resolve fs parse a) k))
                 \<and> (\<forall>k x y. map_of (file_content resolve fs parse a) k = Some x
                            \<and> map_of (file_content resolve fs parse b) k = Some y \<and> x \<noteq> y
                        \<longrightarrow> map_of (merged r) k = Some y \<and> map_of (merged rba) k = Some x
                            \<and> merged r \<noteq> merged rba)))"
proof -
  let ?fc = "file_content resolve fs parse"
  define r where "r = \<lparr>env_files = map (file_record resolve fs parse) envPaths,
          merged = fold (\<lambda>p m. Object_assign m (?fc p)) envPaths []\<rparr>"
  have run: "parseEnvFiles resolve fs parse envPaths = Inr r"
    unfolding parseEnvFiles_def r_def
    using parseEnvFiles_loop_readable[of envPaths fs resolve parse "[]" "[]"] assms(1) by simp
  have cont: "map content (env_files r) = map ?fc envPaths"
    by (simp add: r_def file_record_def comp_def)
  have look: "map_of (merged r) k = spec_overlay (map ?fc envPaths) k" for k
    using map_of_fold_assign[of envPaths ?fc "[]" k] assms(2)
    by (simp add: r_def split: option.splits)
  have two: "\<exists>rba. parseEnvFiles resolve fs parse [b, a] = Inr rba
        \<and> (\<forall>k. map_of (merged r) k =
              (case map_of (?fc b) k of Some v \<Rightarrow> Some v | None \<Rightarrow> map_of (?fc a) k))
        \<and> (\<forall>k x y. map_of (?fc a) k = Some x \<and> map_of (?fc b) k = Some y \<and> x \<noteq> y
               \<longrightarrow> map_of (merged r) k = Some y \<and> map_of (merged rba) k = Some x
                   \<and> merged r \<noteq> merged rba)"
    if ab: "envPaths = [a, b]" for a b
  proof -
    define rba where "rba = \<lparr>env_files = map (file_record resolve fs parse) [b, a],
          merged = fold (\<lambda>p m. Object_assign m (?fc p)) [b, a] []\<rparr>"
    have readable: "\<forall>p\<in>set [b, a]. \<forall>msg. fs (resolve p) \<noteq> Unreadable msg"
      using assms(1) ab by auto
    have run': "parseEnvFiles resolve fs parse [b, a] = Inr rba"
      unfolding parseEnvFiles_def rba_def
      using parseEnvFiles_loop_readable[of "[b, a]" fs resolve parse "[]" "[]"] readable by simp
    have dist': "\<forall>p\<in>set [b, a]. distinct (map fst (?fc p))"
      using assms(2) ab by auto
    have look': "map_of (merged rba) k = spec_overlay (map ?fc [b, a]) k" for k
      using map_of_fold_assign[of "[b, a]" ?fc "[]" k] dist'
      by (simp add: rba_def split: option.splits)
    have l1: "map_of (merged r) k =
        (case map_of (?fc b) k of Some v \<Rightarrow> Some v | None \<Rightarrow> map_of (?fc a) k)" for k
      using look[of k] ab by (simp split: option.splits)
    have l2: "map_of (merged rba) k =
        (case map_of (?fc a) k of Some v \<Rightarrow> Some v | None \<Rightarrow> map_of (?fc b) k)" for k
      using look'[of k] by (simp split: option.splits)
    have diff: "map_of (merged r) k = Some y \<and> map_of (merged rba) k = Some x
                  \<and> merged r \<noteq> merged rba"
      if "map_of (?fc a) k = Some x" and "map_of (?fc b) k = Some y" and "x \<noteq> y" for k x y
    proof -
      have 1: "map_of (merged r) k = Some y" using that l1[of k] by simp
      have 2: "map_of (merged rba) k = Some x" using that l2[of k] by simp
      have "merged r \<noteq> merged rba"
      proof
        assume "merged r = merged rba"
        with 1 2 have "Some y = Some x" by (simp only:)
        with that(3) show False by simp
      qed
      with 1 2 show ?thesis by (intro conjI)
    qed
    have A: "\<forall>k. map_of (merged r) k =
              (case map_of (?fc b) k of Some v \<Rightarrow> Some v | None \<Rightarrow> map_of (?fc a) k)"
      by (intro allI) (rule l1)
    have B: "\<forall>k x y. map_of (?fc a) k = Some x \<and> map_of (?fc b) k = Some y \<and> x \<noteq> y
               \<longrightarrow> map_of (merged r) k = Some y \<and> map_of (merged rba) k = Some x
                   \<and> merged r \<noteq> merged rba"
    proof (intro allI impI)
      fix k x y
      assume "map_of (?fc a) k = Some x \<and> map_of (?fc b) k = Some y \<and> x \<noteq> y"
      then show "map_of (merged r) k = Some y \<and> map_of (merged rba) k = Some x
                   \<and> merged r \<noteq> merged rba"
        using diff[of k x y] by simp
    qed
    from run' A B show ?thesis by (intro exI[of _ rba] conjI)
  qed
  have L: "\<forall>k. map_of (merged r) k = spec_overlay (map ?fc envPaths) k"
    by (intro allI) (rule look)
  have T: "\<forall>a b. envPaths = [a, b] \<longrightarrow>
      (\<exists>rba. parseEnvFiles resolve fs parse [b, a] = Inr rba
        \<and> (\<forall>k. map_of (merged r) k =
              (case map_of (?fc b) k of Some v \<Rightarrow> Some v | None \<Rightarrow> map_of (?fc a) k))
        \<and> (\<forall>k x y. map_of (?fc a) k = Some x \<and> map_of (?fc b) k = Some y \<and> x \<noteq> y
               \<longrightarrow> map_of (merged r) k = Some y \<and> map_of (merged rba) k = Some x
                   \<and> merged r \<noteq> merged rba))"
    by (intro allI impI) (rule two)
  from run cont L T show ?thesis by (intro exI[of _ r] conjI)
qed

theorem parseEnvFiles_overlay_witness:
  "map_of (merged (projr (parseEnvFiles (\<lambda>p. p) sample_fs plain_parse
      [''.env'', ''.env.local'', ''.env.test''])))
      ''PORT'' = Some ''4000''
   \<and> map_of (merged (projr (parseEnvFiles (\<lambda>p. p) sample_fs plain_parse
      [''.env'', ''.env.local'', ''.env.test''])))
      ''NODE_ENV'' = Some ''development''
   \<and> map_of (merged (projr (parseEnvFiles (\<lambda>p. p) sample_fs plain_parse [''.env'', ''.env.local''])))
      ''PORT'' = Some ''4000''
   \<and> map_of (merged (projr (parseEnvFiles (\<lambda>p. p) sample_fs plain_parse [''.env.local'', ''.env''])))
      ''PORT'' = Some ''3000''
   \<and> merged (projr (parseEnvFiles (\<lambda>p. p) sample_fs plain_parse [''.env'', ''.env.local'']))
      \<noteq> merged (projr (parseEnvFiles (\<lambda>p. p) sample_fs plain_parse [''.env.local'', ''.env'']))"
proof -
  have r3: "\<forall>p\<in>set [''.env'', ''.env.local'', ''.env.test''].
              \<forall>msg. sample_fs ((\<lambda>p. p) p) \<noteq> Unreadable msg"
    and r2: "\<forall>p\<in>set [''.env'', ''.env.local''].
              \<forall>msg. sample_fs ((\<lambda>p. p) p) \<noteq> Unreadable msg"
    by (simp_all add: sample_fs_def)
  have d3: "\<forall>p\<in>set [''.env'', ''.env.local'', ''.env.test''].
              distinct (map fst (file_content (\<lambda>p. p) sample_fs plain_parse p))"
    and d2: "\<forall>p\<in>set [''.env'', ''.env.local''].
              distinct (map fst (file_content (\<lambda>p. p) sample_fs plain_parse p))"
    by (simp_all add: sample_contents)
  from parseEnvFiles_overlay[of "[''.env'', ''.env.local'', ''.env.test'']" sample_fs "\<lambda>p. p"
         plain_parse, OF r3 d3]
  obtain r where H3: "parseEnvFiles (\<lambda>p. p) sample_fs plain_parse
        [''.env'', ''.env.local'', ''.env.test''] = Inr r
      \<and> map content (env_files r) = map (file_content (\<lambda>p. p) sample_fs plain_parse)
          [''.env'', ''.env.local'', ''.env.test'']
      \<and> (\<forall>k. map_of (merged r) k =
            spec_overlay (map (file_content (\<lambda>p. p) sample_fs plain_parse)
                       [''.env'', ''.env.local'', ''.env.test'']) k)
      \<and> (\<forall>a b. [''.env'', ''.env.local'', ''.env.test''] = [a, b] \<longrightarrow>
            (\<exists>rba. parseEnvFiles (\<lambda>p. p) sample_fs plain_parse [b, a] = Inr rba
              \<and> (\<forall>k. map_of (merged r) k =
                    (case map_of (file_content (\<lambda>p. p) sample_fs plain_parse b) k of
                       Some v \<Rightarrow> Some v
                     | None \<Rightarrow> map_of (file_content (\<lambda>p. p) sample_fs plain_parse a) k))
              \<and> (\<forall>k x y. map_of (file_content (\<lambda>p. p) sample_fs plain_parse a) k = Some x
                       \<and> map_of (file_content (\<lambda>p. p) sample_fs plain_parse b) k = Some y
                       \<and> x \<noteq> y
                     \<longrightarrow> map_of (merged r) k = Some y \<and> map_of (merged rba) k = Some x
                         \<and> merged r \<noteq> merged rba)))" ..
  note r = H3[THEN conjunct1]
  note l = H3[THEN conjunct2, THEN conjunct2, THEN conjunct1, THEN spec]
  from parseEnvFiles_overlay[of "[''.env'', ''.env.local'']" sample_fs "\<lambda>p. p"
         plain_parse, OF r2 d2]
  obtain rab where H2: "parseEnvFiles (\<lambda>p. p) sample_fs plain_parse [''.env'', ''.env.local''] = Inr rab
      \<and> map content (env_files rab) = map (file_content (\<lambda>p. p) sample_fs plain_parse)
          [''.env'', ''.env.local'']
      \<and> (\<forall>k. map_of (merged rab) k =
            spec_overlay (map (file_content (\<lambda>p. p) sample_fs plain_parse)
                       [''.env'', ''.env.local'']) k)
      \<and> (\<forall>a b. [''.env'', ''.env.local''] = [a, b] \<longrightarrow>
            (\<exists>rba. parseEnvFiles (\<lambda>p. p) sample_fs plain_parse [b, a] = Inr rba
              \<and> (\<forall>k. map_of (merged rab) k =
                    (case map_of (file_content (\<lambda>p. p) sample_fs plain_parse b) k of
                       Some v \<Rightarrow> Some v
                     | None \<Rightarrow> map_of (file_content (\<lambda>p. p) sample_fs plain_parse a) k))
              \<and> (\<forall>k x y. map_of (file_content (\<lambda>p. p) sample_fs plain_parse a) k = Some x
                       \<and> map_of (file_content (\<lambda>p. p) sample_fs plain_parse b) k = Some y
                       \<and> x \<noteq> y
                     \<longrightarrow> map_of (merged rab) k = Some y \<and> map_of (merged rba) k = Some x
                         \<and> merged rab \<noteq> merged rba)))" ..
  note rab = H2[THEN conjunct1]
  from H2[THEN conjunct2, THEN conjunct2, THEN conjunct2, THEN spec, THEN spec, THEN mp, OF refl]
  obtain rba where H: "parseEnvFiles (\<lambda>p. p) sample_fs plain_parse [''.env.local'', ''.env''] = Inr rba
      \<and> (\<forall>k. map_of (merged rab) k =
            (case map_of (file_content (\<lambda>p. p) sample_fs plain_parse ''.env.local'') k of
               Some v \<Rightarrow> Some v
             | None \<Rightarrow> map_of (file_content (\<lambda>p. p) sample_fs plain_parse ''.env'') k))
      \<and> (\<forall>k x y. map_of (file_content (\<lambda>p. p) sample_fs plain_parse ''.env'') k = Some x
               \<and> map_of (file_content (\<lambda>p. p) sample_fs plain_parse ''.env.local'') k = Some y
               \<and> x \<noteq> y
             \<longrightarrow> map_of (merged rab) k = Some y \<and> map_of (merged rba) k = Some x
                 \<and> merged rab \<noteq> merged rba)" ..
  note rba = H[THEN conjunct1]
  note d = H[THEN conjunct2, THEN conjunct2, THEN spec, THEN spec, THEN spec, THEN mp]
  have "map_of (merged r) ''PORT'' = Some ''4000''"
    using l[of "''PORT''"] by (simp add: sample_contents)
  moreover have "map_of (merged r) ''NODE_ENV'' = Some ''development''"
    using l[of "''NODE_ENV''"] by (simp add: sample_contents)
  moreover have "map_of (merged rab) ''PORT'' = Some ''4000'' \<and> map_of (merged rba) ''PORT'' = Some ''3000''
      \<and> merged rab \<noteq> merged rba"
    by (rule d[of "''PORT''" "''3000''" "''4000''"]) (simp add: sample_contents)
  ultimately show ?thesis by (simp add: r rab rba)
qed

section \<open>C7: an invalid pattern\<close>

text \<open>
  C7. \<open>validatePattern\<close> returns one of three results on every value and pattern and
  never throws. When the pattern does not compile it returns the invalid-pattern message,
  which differs from the mismatch message, and \<open>validateEnv\<close> reports it as the one
  \<open>pattern\<close> error of the key. (The orchestrator skips an empty pattern; the empty
  source compiles in JavaScript, so an invalid pattern is never empty.)
\<close>

theorem invalid_pattern_reported:
  "(validatePattern P v pat = Valid
      \<or> validatePattern P v pat = Invalid (''Value does not match pattern: '' @ pat)
      \<or> validatePattern P v pat = Invalid (''Invalid regex pattern: '' @ pat))
   \<and> (RegExp P pat = None \<longrightarrow>
        validatePattern P v pat = Invalid (''Invalid regex pattern: '' @ pat)
        \<and> ''Invalid regex pattern: '' @ pat \<noteq> ''Value does not match pattern: '' @ pat
        \<and> (pat \<noteq> [] \<and> distinct (map fst env) \<and> (k, v) \<in> set env
             \<and> map_of (keys schema) k = Some d \<and> pattern d = Some pat \<longrightarrow>
           issues_of pattern_issue k (errors (validateEnv P env schema options)) =
             [pattern_issue_of k (''Invalid regex pattern: '' @ pat)]))"
proof -
  have v: "validatePattern P v pat = Invalid (''Invalid regex pattern: '' @ pat)"
    if "RegExp P pat = None"
    using that by (simp add: validatePattern_def)
  have "issues_of pattern_issue k (errors (validateEnv P env schema options)) =
          [pattern_issue_of k (''Invalid regex pattern: '' @ pat)]"
    if "RegExp P pat = None" and "pat \<noteq> []" and d: "distinct (map fst env)"
      and m: "(k, v) \<in> set env" and l: "map_of (keys schema) k = Some d"
      and "pattern d = Some pat"
    unfolding issues_of_def errors_for_key[OF d m] pattern_errors_declared[OF l]
    using that(2,6) v[OF that(1)] by simp
  with v validatePattern_range[of P v pat] show ?thesis by simp
qed

theorem invalid_pattern_reported_witness:
  "RegExp sample_platform ''['' = None
   \<and> validatePattern sample_platform ''abc'' ''['' = Invalid ''Invalid regex pattern: [''
   \<and> issues_of pattern_issue ''NAME''
       (errors (validateEnv sample_platform [(''NAME'', ''abc'')] (name_schema True (Some ''[''))
          \<lparr>strict = None, failOnWarn = None\<rparr>)) =
       [pattern_issue_of ''NAME'' ''Invalid regex pattern: ['']"
proof -
  have r: "RegExp sample_platform ''['' = None"
    by (simp add: sample_platform_def alnum_def)
  have h: "''['' \<noteq> [] \<and> distinct (map fst [(''NAME'', ''abc'')])
       \<and> (''NAME'', ''abc'') \<in> set [(''NAME'', ''abc'')]
       \<and> map_of (keys (name_schema True (Some ''[''))) ''NAME''
           = Some ((string_key ''NAME'')\<lparr>required := True, pattern := Some ''[''\<rparr>)
       \<and> pattern ((string_key ''NAME'')\<lparr>required := True, pattern := Some ''[''\<rparr>) = Some ''[''"
    by (simp add: name_schema_lookup)
  show ?thesis
    using invalid_pattern_reported[of sample_platform "''abc''" "''[''" "[(''NAME'', ''abc'')]" "''NAME''"
            "name_schema True (Some ''['')"
            "(string_key ''NAME'')\<lparr>required := True, pattern := Some ''[''\<rparr>"
            "\<lparr>strict = None, failOnWarn = None\<rparr>"] r h
    by simp
qed

section \<open>C8: an optional key with an empty value\<close>

text \<open>
  C8, as amended. For a key that is not required and whose value is empty or absent,
  \<open>validateEnvValue\<close> returns \<open>Valid\<close> and the result holds no \<open>type\<close> issue (so no
  bounds issue) for the key. The pattern check is a separate step of the orchestrator:
  for a present empty value and a non-empty declared pattern it runs on the empty
  string and its failure is a \<open>pattern\<close> error of the key; an absent key gets none.
\<close>

theorem optional_empty_value:
  assumes "distinct (map fst env)" and "map_of (keys schema) k = Some d" and "\<not> required d"
    and "(k, []) \<in> set env \<or> k \<notin> fst ` set env"
  shows "validateEnvValue P [] d = Valid
       \<and> issues_of type_issue k (errors (validateEnv P env schema options)
                                 @ warnings (validateEnv P env schema options)) = []
       \<and> issues_of pattern_issue k (warnings (validateEnv P env schema options)) = []
       \<and> issues_of pattern_issue k (errors (validateEnv P env schema options)) =
           (if (k, []) \<in> set env
            then (case pattern d of
                    None \<Rightarrow> []
                  | Some pat \<Rightarrow>
                      if pat = [] then []
                      else (case validatePattern P [] pat of
                              Valid \<Rightarrow> []
                            | Invalid msg \<Rightarrow> [pattern_issue_of k msg]))
            else [])"
proof -
  let ?r = "validateEnv P env schema options"
  have v: "validateEnvValue P [] d = Valid"
    using assms(3) by (simp add: validateEnvValue_def)
  show ?thesis
  proof (cases "(k, []) \<in> set env")
    case True
    have "issues_of type_issue k (errors ?r) = []"
      unfolding issues_of_def errors_for_key[OF assms(1) True] type_errors_declared[OF assms(2)] v
      by simp
    moreover have "issues_of kind k (warnings ?r) = []" if "kind \<noteq> deprecated_issue" for kind
      unfolding issues_of_def warnings_for_key[OF assms(1) True] key_warnings_declared[OF assms(2)]
      using that by (simp add: deprecated_issue_of_def)
    moreover have "issues_of pattern_issue k (errors ?r) =
        (case pattern d of
           None \<Rightarrow> []
         | Some pat \<Rightarrow>
             if pat = [] then []
             else (case validatePattern P [] pat of
                     Valid \<Rightarrow> []
                   | Invalid msg \<Rightarrow> [pattern_issue_of k msg]))"
      unfolding issues_of_def errors_for_key[OF assms(1) True] pattern_errors_declared[OF assms(2)]
      by simp
    ultimately show ?thesis using v True by (simp add: issues_of_def)
  next
    case False
    with assms(4) have absent: "k \<notin> fst ` set env" by simp
    have "issues_of kind k (errors ?r) = []" if "kind \<noteq> missing" for kind
      using issues_of_absent_key(1)[OF absent, of kind P schema options]
            issues_of_missing_kind[OF that, of k]
      by (simp add: errors_validateEnv issues_of_def)
    moreover have "issues_of kind k (warnings ?r) = []" for kind
      by (rule issues_of_absent_key(2)[OF absent])
    ultimately show ?thesis using v False by (simp add: issues_of_def)
  qed
qed

theorem optional_empty_pattern_counterexample:
  "errors (validateEnv sample_platform [(''NAME'', [])] (name_schema False (Some ''abc''))
      \<lparr>strict = None, failOnWarn = None\<rparr>) =
     [pattern_issue_of ''NAME'' ''Value does not match pattern: abc'']"
  by (simp add: run_simps name_schema_def validatePattern_def sample_platform_def alnum_def)

theorem optional_empty_value_witness:
  "validateEnvValue sample_platform [] ((string_key ''NAME'')\<lparr>required := False, pattern := Some ''abc''\<rparr>) = Valid
   \<and> issues_of type_issue ''NAME''
       (errors (validateEnv sample_platform [(''NAME'', [])] (name_schema False (Some ''abc''))
          \<lparr>strict = None, failOnWarn = None\<rparr>)) = []
   \<and> issues_of pattern_issue ''NAME''
       (errors (validateEnv sample_platform [(''NAME'', [])] (name_schema False (Some ''abc''))
          \<lparr>strict = None, failOnWarn = None\<rparr>)) =
       [pattern_issue_of ''NAME'' ''Value does not match pattern: abc'']
   \<and> issues_of pattern_issue ''NAME''
       (errors (validateEnv sample_platform [] (name_schema False (Some ''abc''))
          \<lparr>strict = None, failOnWarn = None\<rparr>)) = []"
proof -
  have d: "distinct (map fst [(''NAME'', [])])" "distinct (map fst ([] :: string Record))" by simp_all
  have r: "\<not> required ((string_key ''NAME'')\<lparr>required := False, pattern := Some ''abc''\<rparr>)" by simp
  have m: "(''NAME'', []) \<in> set [(''NAME'', [])] \<or> ''NAME'' \<notin> fst ` set [(''NAME'', [])]"
    "(''NAME'', []) \<in> set [] \<or> ''NAME'' \<notin> fst ` set ([] :: string Record)" by simp_all
  have p: "validatePattern sample_platform [] ''abc'' = Invalid ''Value does not match pattern: abc''"
    by (simp add: validatePattern_def sample_platform_def alnum_def)
  show ?thesis
    using optional_empty_value[OF d(1) name_schema_lookup r m(1), of sample_platform
            "\<lparr>strict = None, failOnWarn = None\<rparr>"]
          optional_empty_value[OF d(2) name_schema_lookup r m(2), of sample_platform
            "\<lparr>strict = None, failOnWarn = None\<rparr>"]
    by (simp add: p issues_of_def)
qed

section \<open>C9: secrets in a JSON view\<close>

text \<open>
  C9, as amended. In the view the JSON formatter's \<open>redactSecrets(obj, schema)\<close>
  derives, every string under a key whose schema definition is secret is the literal
  \<open><redacted>\<close>, at every depth. The utility \<open>redactSecrets(obj, secretKeys)\<close> instead
  replaces the string of a listed key by \<open>redactSecret\<close> of it, in the object and, through
  the recursive call, in the objects nested in it: a string of the same length, all
  bullets when the value has at most four characters, and otherwise its first two
  characters, bullets, and its last two characters.
\<close>

theorem redactSecrets_literal:
  "all_secrets_literal schema (redactSecrets schema v)
   \<and> (is_secret schema k \<and> map_of kvs k = Some (JStr s) \<longrightarrow>
        map_of (entries (redactSecrets schema (JObj kvs))) k = Some (JStr ''<redacted>''))
   \<and> (k \<in> set secretKeys \<and> map_of obj k = Some (JStr s) \<longrightarrow>
        map_of (redactSecrets_keys secretKeys obj) k = Some (JStr (redactSecret s)))
   \<and> (k \<in> set secretKeys \<and> (k, JStr s) \<in> set obj \<longrightarrow>
        (k, JStr (redactSecret s)) \<in> set (redactSecrets_keys secretKeys obj))
   \<and> (map_of obj k = Some (JObj kvs) \<longrightarrow>
        map_of (redactSecrets_keys secretKeys obj) k =
          Some (JObj (redactSecrets_keys secretKeys kvs)))
   \<and> length (redactSecret s) = length s
   \<and> (length s \<le> 4 \<longrightarrow> redactSecret s = replicate (length s) bullet)
   \<and> (4 < length s \<longrightarrow>
        redactSecret s = take 2 s @ replicate (length s - 4) bullet @ drop (length s - 2) s
        \<and> take 2 (redactSecret s) = take 2 s
        \<and> drop (length s - 2) (redactSecret s) = drop (length s - 2) s)"
proof -
  have a: "all_secrets_literal schema (redactSecrets schema v)"
    by (rule redactSecrets_deep)
  have b: "map_of (entries (redactSecrets schema (JObj kvs))) k = Some (JStr ''<redacted>'')"
    if "is_secret schema k" and "map_of kvs k = Some (JStr s)"
    unfolding redactSecrets_lookup using that by simp
  have c: "map_of (redactSecrets_keys secretKeys obj) k = Some (JStr (redactSecret s))"
    if "k \<in> set secretKeys" and "map_of obj k = Some (JStr s)"
    unfolding redactSecrets_keys_lookup using that by simp
  have d: "map_of (redactSecrets_keys secretKeys obj) k =
             Some (JObj (redactSecrets_keys secretKeys kvs))"
    if "map_of obj k = Some (JObj kvs)"
    unfolding redactSecrets_keys_lookup using that by simp
  from a b c d redactSecrets_keys_entry[of k s obj secretKeys] redactSecret_length[of s]
       redactSecret_short[of s] redactSecret_long[of s]
  show ?thesis by blast
qed

theorem redactSecrets_keys_counterexample:
  "redactSecrets_keys [''SECRET_TOKEN''] [(''SECRET_TOKEN'', JStr ''abcdef'')] =
     [(''SECRET_TOKEN'', JStr (''ab'' @ [bullet, bullet] @ ''ef''))]
   \<and> JStr (''ab'' @ [bullet, bullet] @ ''ef'') \<noteq> JStr ''<redacted>''"
  by (simp add: redactSecret_def)

theorem redactSecrets_literal_witness:
  "map_of (entries (redactSecrets token_schema
       (JObj [(''PORT'', JStr ''3000''), (''SECRET_TOKEN'', JStr ''abcdef'')]))) ''SECRET_TOKEN''
     = Some (JStr ''<redacted>'')
   \<and> map_of (redactSecrets_keys [''SECRET_TOKEN''] [(''SECRET_TOKEN'', JStr ''abcdef'')])
       ''SECRET_TOKEN'' = Some (JStr (''ab'' @ [bullet, bullet] @ ''ef''))
   \<and> map_of (redactSecrets_keys [''SECRET_TOKEN''] [(''SECRET_TOKEN'', JStr ''abc'')])
       ''SECRET_TOKEN'' = Some (JStr [bullet, bullet, bullet])"
proof -
  have s: "is_secret token_schema ''SECRET_TOKEN''"
    by (simp add: is_secret_def get_property_def token_schema_def schema_of_def string_key_def)
  have l: "4 < length ''abcdef''" "length ''abc'' \<le> 4" by simp_all
  show ?thesis
    using redactSecrets_literal[of token_schema JNull "''SECRET_TOKEN''"
            "[(''PORT'', JStr ''3000''), (''SECRET_TOKEN'', JStr ''abcdef'')]" "''abcdef''"
            "[''SECRET_TOKEN'']" "[(''SECRET_TOKEN'', JStr ''abcdef'')]"]
          redactSecrets_literal[of token_schema JNull "''SECRET_TOKEN''"
            "[(''PORT'', JStr ''3000''), (''SECRET_TOKEN'', JStr ''abc'')]" "''abc''"
            "[''SECRET_TOKEN'']" "[(''SECRET_TOKEN'', JStr ''abc'')]"] s l
    by (simp add: eval_nat_numeral)
qed

section \<open>C10: a required key with an empty value\<close>

text \<open>
  C10. A required key that is present with the empty string gets exactly one error of
  kind \<open>type\<close>, with the message "Required key missing", and no issue of kind
  \<open>missing\<close>; \<open>stats.missing\<close> counts only the missing errors of other keys.
\<close>

theorem required_empty_value:
  assumes "distinct (map fst env)" and "(k, []) \<in> set env"
    and "map_of (keys schema) k = Some d" and "required d"
  shows "issues_of type_issue k (errors (validateEnv P env schema options)) =
           [type_issue_of k ''Required key missing'']
       \<and> issues_of type_issue k (warnings (validateEnv P env schema options)) = []
       \<and> issues_of missing k (errors (validateEnv P env schema options)
                               @ warnings (validateEnv P env schema options)) = []
       \<and> stats_missing (stats (validateEnv P env schema options)) =
           length (filter (\<lambda>i. issue_type i = missing \<and> key i \<noteq> k)
                     (errors (validateEnv P env schema options)))"
proof -
  let ?r = "validateEnv P env schema options"
  have v: "validateEnvValue P [] d = Invalid ''Required key missing''"
    using assms(4) by (simp add: validateEnvValue_def)
  have t: "issues_of type_issue k (errors ?r) = [type_issue_of k ''Required key missing'']"
    unfolding issues_of_def errors_for_key[OF assms(1,2)] type_errors_declared[OF assms(3)] v
    by simp
  have tw: "issues_of type_issue k (warnings ?r) = []"
    unfolding issues_of_def warnings_for_key[OF assms(1,2)] key_warnings_declared[OF assms(3)]
    by (simp add: deprecated_issue_of_def)
  have me: "issues_of missing k (errors ?r) = []"
    unfolding issues_of_def errors_for_key[OF assms(1,2)] missing_errors_declared[OF assms(3)]
    by simp
  have mw: "issues_of missing k (warnings ?r) = []"
    unfolding issues_of_def warnings_for_key[OF assms(1,2)] key_warnings_declared[OF assms(3)]
    by (simp add: deprecated_issue_of_def)
  have "filter (\<lambda>i. issue_type i = missing) (errors ?r) =
          filter (\<lambda>i. issue_type i = missing \<and> key i \<noteq> k) (errors ?r)"
  proof (rule filter_cong[OF refl])
    fix i assume "i \<in> set (errors ?r)"
    with me show "(issue_type i = missing) = (issue_type i = missing \<and> key i \<noteq> k)"
      by (auto simp: issues_of_def filter_empty_conv)
  qed
  then have s: "stats_missing (stats ?r) =
      length (filter (\<lambda>i. issue_type i = missing \<and> key i \<noteq> k) (errors ?r))"
    by (simp add: stats_validateEnv)
  from t tw me mw s show ?thesis by (simp add: issues_of_def)
qed

theorem required_empty_value_witness:
  "issues_of type_issue ''NAME''
     (errors (validateEnv sample_platform [(''NAME'', [])] (name_schema True None)
        \<lparr>strict = None, failOnWarn = None\<rparr>))
     = [type_issue_of ''NAME'' ''Required key missing'']
   \<and> stats_missing (stats (validateEnv sample_platform [(''NAME'', [])] (name_schema True None)
        \<lparr>strict = None, failOnWarn = None\<rparr>)) = 0"
proof -
  have d: "distinct (map fst [(''NAME'', [])])" by simp
  have m: "(''NAME'', []) \<in> set [(''NAME'', [])]" by simp
  have r: "required ((string_key ''NAME'')\<lparr>required := True, pattern := None\<rparr>)" by simp
  have e: "errors (validateEnv sample_platform [(''NAME'', [])] (name_schema True None)
        \<lparr>strict = None, failOnWarn = None\<rparr>) = [type_issue_of ''NAME'' ''Required key missing'']"
    by (simp add: run_simps name_schema_def)
  show ?thesis
    using required_empty_value[OF d m name_schema_lookup r, of sample_platform
            "\<lparr>strict = None, failOnWarn = None\<rparr>"]
    by (simp add: e type_issue_of_def)
qed

end
